theory Spec2Isabelle
  imports Main "HOL-Library.Word" "HOL-Library.Sublist"
begin

section \<open>Go values\<close>

text \<open>
  Go's \<open>int\<close> is taken at its width on a 64-bit platform: a two's complement word whose
  \<open>+\<close> wraps, compared through \<open>sint\<close>. A \<open>string\<close> is a sequence of bytes. A
  \<open>time.Time\<close> is an instant counted from the zero \<open>Time\<close>, so the zero value is 0.
\<close>

type_synonym go_int = "64 word"
type_synonym go_time = int

text \<open>
  The error values the package can return: \<open>errors.New(msg)\<close>, the \<open>*NumError\<close> of
  \<open>strconv\<close> (function, input, cause), and an error handed over by a collaborator
  (\<open>htmlquery.LoadURL\<close>, \<open>time.Parse\<close>), known by its message.
\<close>

datatype error = ErrorsNew string | NumError string string string | LibError string

text \<open>A Go call either panics or returns; a returning call gives a value and an error or nil.\<close>

datatype 'a run = Panics string | Returns 'a

record Post =
  Rank :: go_int
  Title :: string
  Score :: go_int
  By :: string
  URL :: string
  NumComments :: go_int
  TimePosted :: go_time

record Page =
  Posts :: "Post list"
  Num :: go_int
  Retrieved :: go_time

definition zeroPost :: Post where
  "zeroPost = \<lparr>Rank = 0, Title = [], Score = 0, By = [], URL = [], NumComments = 0,
     TimePosted = 0\<rparr>"

definition zeroPage :: Page where
  "zeroPage = \<lparr>Posts = [], Num = 0, Retrieved = 0\<rparr>"

definition hackernewsURL :: string where
  "hackernewsURL = ''https://news.ycombinator.com/news?p=''"

definition errorMsg :: string where
  "errorMsg = ''could not process: page formatted unexpectedly''"

section \<open>The standard library functions the package calls\<close>

definition is_digit :: "char \<Rightarrow> bool" where
  "is_digit c = (48 \<le> (of_char c :: int) \<and> (of_char c :: int) \<le> 57)"

definition digit_val :: "char \<Rightarrow> int" where
  "digit_val c = (of_char c :: int) - 48"

text \<open>
  \<open>strconv.ParseUint(s, 10, 64)\<close> on a non-empty \<open>s\<close>: the bytes are read from the left; a
  byte that is no decimal digit ends the scan with a syntax error, and a value beyond
  \<open>2^64 - 1\<close> ends it at once with a range error and the largest value, whatever follows.
\<close>

datatype num_err = ErrSyntax | ErrRange

fun parseUint :: "string \<Rightarrow> int \<Rightarrow> int \<times> num_err option" where
  "parseUint [] n = (n, None)"
| "parseUint (c # cs) n =
     (if \<not> is_digit c then (0, Some ErrSyntax)
      else let n1 = n * 10 + digit_val c
           in if 2 ^ 64 \<le> n1 then (2 ^ 64 - 1, Some ErrRange) else parseUint cs n1)"

definition syntaxError :: "string \<Rightarrow> error" where
  "syntaxError s = NumError ''Atoi'' s ''invalid syntax''"

definition rangeError :: "string \<Rightarrow> error" where
  "rangeError s = NumError ''Atoi'' s ''value out of range''"

text \<open>
  \<open>strconv.Atoi\<close>: an optional sign, then decimal digits. The short-string fast path and
  \<open>ParseInt(s, 10, 0)\<close> agree wherever both apply, so one definition covers both. On a
  syntax error the value is 0; on a range error it is the nearest bound of \<open>int\<close>.
\<close>

definition Atoi :: "string \<Rightarrow> go_int \<times> error option" where
  "Atoi s =
     (if s = [] then (0, Some (syntaxError s))
      else let neg = (hd s = CHR ''-'');
               body = (if hd s = CHR ''+'' \<or> hd s = CHR ''-'' then tl s else s)
           in if body = [] then (0, Some (syntaxError s))
              else case parseUint body 0 of
                     (un, Some ErrSyntax) \<Rightarrow> (0, Some (syntaxError s))
                   | (un, _) \<Rightarrow>
                       if \<not> neg \<and> 2 ^ 63 \<le> un then (of_int (2 ^ 63 - 1), Some (rangeError s))
                       else if neg \<and> 2 ^ 63 < un then (- of_int (2 ^ 63), Some (rangeError s))
                       else if neg then (- of_int un, None)
                       else (of_int un, None))"

text \<open>\<open>strconv.Itoa\<close>: the decimal digits of the value, after a minus sign when negative.\<close>

function decimal :: "int \<Rightarrow> string" where
  "decimal n = (if n < 10 then [char_of (48 + n)]
                else decimal (n div 10) @ [char_of (48 + n mod 10)])"
  by pat_completeness auto
termination
  by (relation "measure (\<lambda>n. nat n)") auto

definition Itoa :: "go_int \<Rightarrow> string" where
  "Itoa n = (if sint n < 0 then CHR ''-'' # decimal (- sint n) else decimal (sint n))"

text \<open>\<open>strings.Contains(s, sub)\<close>: \<open>sub\<close> occurs in \<open>s\<close> as a run of consecutive bytes.\<close>

fun Contains :: "string \<Rightarrow> string \<Rightarrow> bool" where
  "Contains [] sub = (sub = [])"
| "Contains (c # cs) sub = (prefix sub (c # cs) \<or> Contains cs sub)"

text \<open>
  \<open>strings.ReplaceAll(s, old, new)\<close> for a non-empty \<open>old\<close>: the occurrences are taken
  from the left and do not overlap. The first argument counts the bytes of the current
  occurrence that are still to be skipped.
\<close>

fun replaceFrom :: "nat \<Rightarrow> string \<Rightarrow> string \<Rightarrow> string \<Rightarrow> string" where
  "replaceFrom k [] old new = []"
| "replaceFrom (Suc k) (c # cs) old new = replaceFrom k cs old new"
| "replaceFrom 0 (c # cs) old new =
     (if prefix old (c # cs) then new @ replaceFrom (length old - 1) cs old new
      else c # replaceFrom 0 cs old new)"

definition ReplaceAll :: "string \<Rightarrow> string \<Rightarrow> string \<Rightarrow> string" where
  "ReplaceAll s old new = replaceFrom 0 s old new"

text \<open>
  \<open>strings.TrimSpace\<close> removes the leading and the trailing white space of Unicode. In
  UTF-8 these are the six ASCII bytes tab, line feed, vertical tab, form feed, carriage
  return and space, and the encodings of U+0085, U+00A0, U+1680, U+2000 to U+200A,
  U+2028, U+2029, U+202F, U+205F and U+3000.
\<close>

definition spaceSeqs :: "string list" where
  "spaceSeqs =
     [[CHR 0x09], [CHR 0x0A], [CHR 0x0B], [CHR 0x0C], [CHR 0x0D], [CHR 0x20],
      [CHR 0xC2, CHR 0x85], [CHR 0xC2, CHR 0xA0], [CHR 0xE1, CHR 0x9A, CHR 0x80],
      [CHR 0xE2, CHR 0x80, CHR 0x80], [CHR 0xE2, CHR 0x80, CHR 0x81],
      [CHR 0xE2, CHR 0x80, CHR 0x82], [CHR 0xE2, CHR 0x80, CHR 0x83],
      [CHR 0xE2, CHR 0x80, CHR 0x84], [CHR 0xE2, CHR 0x80, CHR 0x85],
      [CHR 0xE2, CHR 0x80, CHR 0x86], [CHR 0xE2, CHR 0x80, CHR 0x87],
      [CHR 0xE2, CHR 0x80, CHR 0x88], [CHR 0xE2, CHR 0x80, CHR 0x89],
      [CHR 0xE2, CHR 0x80, CHR 0x8A], [CHR 0xE2, CHR 0x80, CHR 0xA8],
      [CHR 0xE2, CHR 0x80, CHR 0xA9], [CHR 0xE2, CHR 0x80, CHR 0xAF],
      [CHR 0xE2, CHR 0x81, CHR 0x9F], [CHR 0xE3, CHR 0x80, CHR 0x80]]"

text \<open>The number of bytes of the white-space rune that starts the string, 0 if none does.\<close>

definition spaceLen :: "string list \<Rightarrow> string \<Rightarrow> nat" where
  "spaceLen seqs s = (case filter (\<lambda>q. prefix q s) seqs of [] \<Rightarrow> 0 | q # _ \<Rightarrow> length q)"

fun trimLeftFrom :: "nat \<Rightarrow> string list \<Rightarrow> string \<Rightarrow> string" where
  "trimLeftFrom k seqs [] = []"
| "trimLeftFrom (Suc k) seqs (c # cs) = trimLeftFrom k seqs cs"
| "trimLeftFrom 0 seqs (c # cs) =
     (if spaceLen seqs (c # cs) = 0 then c # cs
      else trimLeftFrom (spaceLen seqs (c # cs) - 1) seqs cs)"

definition TrimSpace :: "string \<Rightarrow> string" where
  "TrimSpace s =
     rev (trimLeftFrom 0 (map rev spaceSeqs) (rev (trimLeftFrom 0 spaceSeqs s)))"

text \<open>
  \<open>regexp.Compile("[^0-9]+")\<close> succeeds, and \<open>ReplaceAllLiteralString(s, "")\<close> of the
  compiled expression deletes every run of characters other than the ten decimal digits.
  No byte of a multi-byte UTF-8 character is a digit, so exactly the digit bytes stay.
\<close>

definition stripNonDigits :: "string \<Rightarrow> string" where
  "stripNonDigits s = filter is_digit s"

section \<open>The collaborators\<close>

text \<open>
  The document layer (\<open>htmlquery\<close>), the clock and \<open>time.Parse\<close> are not part of the
  package; they are parameters. A node \<open>'n\<close> is a \<open>*html.Node\<close> other than nil, and a
  pointer that may be nil is a \<open>'n option\<close>: \<open>FindOne\<close> gives \<open>None\<close> when nothing matches.
  \<open>htmlquery.Find\<close> dereferences the node it is given, so a call on nil panics. The node
  that \<open>LoadURL\<close> returns beside an error is not looked at. Selector strings are passed on
  as the source writes them. The requests and clock readings made so far are recorded as
  a list of events, and what the network and the clock answer may depend on it.
\<close>

datatype event = Fetch string | Clock

definition nilDereference :: string where
  "nilDereference = ''invalid memory address or nil pointer dereference''"

record 'n env =
  LoadURL :: "event list \<Rightarrow> string \<Rightarrow> 'n \<times> error option"
  Now :: "event list \<Rightarrow> go_time"
  Find :: "'n \<Rightarrow> string \<Rightarrow> 'n list"
  FindOne :: "'n \<Rightarrow> string \<Rightarrow> 'n option"
  InnerText :: "'n \<Rightarrow> string"
  SelectAttr :: "'n \<Rightarrow> string \<Rightarrow> string"
  timeParse :: "string \<Rightarrow> string \<Rightarrow> go_time \<times> error option"

section \<open>The field extractors\<close>

definition getTitle :: "'n env \<Rightarrow> 'n \<Rightarrow> string \<times> error option" where
  "getTitle e node =
     (let titleQuery = Find e node ''/td/a''
      in if length titleQuery \<noteq> 1 then ([], Some (ErrorsNew errorMsg))
         else (InnerText e (titleQuery ! 0), None))"

text \<open>
  \<open>rankStr[:len(rankStr)-1]\<close> drops the last byte, whatever it is, and panics on the
  empty string, where the upper bound of the slice is \<open>-1\<close>.
\<close>

definition getRank :: "'n env \<Rightarrow> 'n \<Rightarrow> (go_int \<times> error option) run" where
  "getRank e node =
     (let rankQuery = Find e node ''/td/span[contains(@class, 'rank')]''
      in if length rankQuery \<noteq> 1 then Returns (0, Some (ErrorsNew errorMsg))
         else let rankStr = InnerText e (rankQuery ! 0)
              in if rankStr = [] then Panics ''slice bounds out of range [:-1]''
                 else case Atoi (butlast rankStr) of
                        (rank, Some err) \<Rightarrow> Returns (rank, Some err)
                      | (rank, None) \<Rightarrow> Returns (rank, None))"

definition getURL :: "'n env \<Rightarrow> 'n \<Rightarrow> string \<times> error option" where
  "getURL e node =
     (let urlQuery = Find e node ''/td/a[contains(@class, 'titlelink')]''
      in if length urlQuery \<noteq> 1 then ([], Some (ErrorsNew errorMsg))
         else (SelectAttr e (urlQuery ! 0) ''href'', None))"

text \<open>
  \<open>getAuthor\<close> is the first extractor to get the subtext node, which is nil when the
  second row of a group has no subtext cell; its call of \<open>htmlquery.Find\<close> panics then.
\<close>

definition getAuthor :: "'n env \<Rightarrow> 'n option \<Rightarrow> (string \<times> error option) run" where
  "getAuthor e node =
     (case node of
        None \<Rightarrow> Panics nilDereference
      | Some n \<Rightarrow>
          (let authorQuery = Find e n ''/a[contains(@class, 'hnuser')]''
           in if length authorQuery = 1 then Returns (InnerText e (authorQuery ! 0), None)
              else Returns ([], None)))"

definition getPoints :: "'n env \<Rightarrow> 'n \<Rightarrow> go_int \<times> error option" where
  "getPoints e node =
     (let pointsQuery = Find e node ''/span[contains(@class, 'score')]''
      in if length pointsQuery \<noteq> 1 then (0, Some (ErrorsNew errorMsg))
         else let pointsStr = InnerText e (pointsQuery ! 0)
              in case Atoi (TrimSpace (ReplaceAll pointsStr ''points'' [])) of
                   (points, Some err) \<Rightarrow> (points, Some err)
                 | (points, None) \<Rightarrow> (points, None))"

text \<open>
  The loop of \<open>getNumComments\<close> over the anchors: \<open>Inl\<close> is the return from inside the
  loop, \<open>Inr\<close> the value of \<open>commentsStr\<close> when the loop ends.
\<close>

fun commentsLoop :: "'n env \<Rightarrow> 'n list \<Rightarrow> string \<Rightarrow> (go_int \<times> error option) + string" where
  "commentsLoop e [] commentsStr = Inr commentsStr"
| "commentsLoop e (query # rest) commentsStr =
     (let linkStr = InnerText e query
      in if Contains linkStr ''discuss'' then Inl (0, None)
         else if Contains linkStr ''comment''
           then commentsLoop e rest (stripNonDigits linkStr)
         else commentsLoop e rest commentsStr)"

definition getNumComments :: "'n env \<Rightarrow> 'n \<Rightarrow> go_int \<times> error option" where
  "getNumComments e node =
     (let commentsQuery = Find e node ''/a]''
      in case commentsLoop e commentsQuery [] of
           Inl r \<Rightarrow> r
         | Inr commentsStr \<Rightarrow>
             if commentsStr = [] then (0, Some (ErrorsNew errorMsg))
             else case Atoi commentsStr of
                    (n, Some err) \<Rightarrow> (n, Some err)
                  | (n, None) \<Rightarrow> (n, None))"

definition getTimePosted :: "'n env \<Rightarrow> 'n \<Rightarrow> go_time \<times> error option" where
  "getTimePosted e node =
     (let timeQuery = Find e node ''/span[contains(@class, 'age')]''
      in if length timeQuery \<noteq> 1 then (0, Some (ErrorsNew errorMsg))
         else let timeStr = SelectAttr e (timeQuery ! 0) ''title''
              in case timeParse e ''2006-01-02T15:04:05'' timeStr of
                   (posted, Some err) \<Rightarrow> (posted, Some err)
                 | (posted, None) \<Rightarrow> (posted, None))"

section \<open>The row extractor\<close>

text \<open>
  The title row is an element of a \<open>Find\<close> result and so not nil; the subtext node is the
  result of \<open>FindOne\<close> and may be nil. The extractors after \<open>getAuthor\<close> get the same
  pointer, which \<open>getAuthor\<close> has dereferenced by then.
\<close>

definition getPost :: "'n env \<Rightarrow> 'n \<Rightarrow> 'n option \<Rightarrow> (Post \<times> error option) run" where
  "getPost e titleNode subtextNode =
     (case getTitle e titleNode of
        (title, Some err) \<Rightarrow> Returns (zeroPost, Some err)
      | (title, None) \<Rightarrow>
     (case getRank e titleNode of
        Panics m \<Rightarrow> Panics m
      | Returns (rank, Some err) \<Rightarrow> Returns (zeroPost, Some err)
      | Returns (rank, None) \<Rightarrow>
     (case getURL e titleNode of
        (url, Some err) \<Rightarrow> Returns (zeroPost, Some err)
      | (url, None) \<Rightarrow>
     (case getAuthor e subtextNode of
        Panics m \<Rightarrow> Panics m
      | Returns (author, Some err) \<Rightarrow> Returns (zeroPost, Some err)
      | Returns (author, None) \<Rightarrow>
     (case subtextNode of
        None \<Rightarrow> Panics nilDereference
      | Some subtext \<Rightarrow>
     (case getPoints e subtext of
        (points, Some err) \<Rightarrow> Returns (zeroPost, Some err)
      | (points, None) \<Rightarrow>
     (case getNumComments e subtext of
        (numComments, Some err) \<Rightarrow> Returns (zeroPost, Some err)
      | (numComments, None) \<Rightarrow>
     (case getTimePosted e subtext of
        (timePosted, Some err) \<Rightarrow> Returns (zeroPost, Some err)
      | (timePosted, None) \<Rightarrow>
          Returns (\<lparr>Rank = rank, Title = title, Score = points, By = author, URL = url,
                    NumComments = numComments, TimePosted = timePosted\<rparr>, None)))))))))"

section \<open>The page fetcher\<close>

text \<open>
  The loop \<open>for i := 0; i < len(listNodes)-2; i += 3\<close>. The index and the length are
  signed, so the bound is negative for fewer than two rows; the index stays below the
  length of a slice and cannot overflow.
\<close>

function postsLoop :: "'n env \<Rightarrow> 'n list \<Rightarrow> int \<Rightarrow> Post list \<Rightarrow> (Post list \<times> error option) run" where
  "postsLoop e listNodes i posts =
     (if i < int (length listNodes) - 2 then
        (let subtext = FindOne e (listNodes ! nat (i + 1)) ''/td[contains(@class, 'subtext')]''
         in case getPost e (listNodes ! nat i) subtext of
              Panics m \<Rightarrow> Panics m
            | Returns (post, Some err) \<Rightarrow> Returns (posts, Some err)
            | Returns (post, None) \<Rightarrow> postsLoop e listNodes (i + 3) (posts @ [post]))
      else Returns (posts, None))"
  by pat_completeness auto
termination
  by (relation "measure (\<lambda>(e, listNodes, i, posts). nat (int (length listNodes) - i))") auto

definition ScrapePage :: "'n env \<Rightarrow> go_int \<Rightarrow> event list \<Rightarrow> (Page \<times> error option) run \<times> event list" where
  "ScrapePage e pageNum tr =
     (if pageNum <s 1
      then (Returns (zeroPage, Some (ErrorsNew ''page number must be a positive integer'')), tr)
      else let url = hackernewsURL @ Itoa pageNum;
               (doc, err) = LoadURL e tr url;
               tr1 = tr @ [Fetch url];
               retrievedTime = Now e tr1;
               tr2 = tr1 @ [Clock]
           in case err of
                Some er \<Rightarrow> (Returns (zeroPage, Some er), tr2)
              | None \<Rightarrow>
                  (let listNodes = Find e doc ''//table[contains(@class, 'itemlist')]/tbody/tr''
                   in case postsLoop e listNodes 0 [] of
                        Panics m \<Rightarrow> (Panics m, tr2)
                      | Returns (posts, Some er) \<Rightarrow> (Returns (zeroPage, Some er), tr2)
                      | Returns (posts, None) \<Rightarrow>
                          (Returns (\<lparr>Posts = posts, Num = pageNum, Retrieved = retrievedTime\<rparr>,
                             None), tr2)))"

section \<open>The multi-page fetcher\<close>

text \<open>
  The loop \<open>for i := startPage; i <= endPage; i++\<close>. The counter is an \<open>int\<close>, so
  \<open>i++\<close> wraps from the largest value to the smallest. The loop still ends: a page
  number below 1 makes \<open>ScrapePage\<close> return an error, which leaves the loop.
\<close>

lemma ScrapePage_ok_positive:
  "ScrapePage e pageNum tr = (Returns (page, None), tr') \<Longrightarrow> \<not> pageNum <s 1"
  by (auto simp: ScrapePage_def)

lemma sint_succ:
  fixes i :: go_int
  assumes "sint i \<noteq> 2 ^ 63 - 1"
  shows "sint (i + 1) = sint i + 1"
proof -
  have lo: "- (2 ^ 63) \<le> sint i" using sint_ge [of i] by simp
  have hi: "sint i < 2 ^ 63" using sint_lt [of i] by simp
  have "sint (i + 1) = signed_take_bit 63 (sint i + 1)"
    by (simp add: sint_word_ariths)
  also have "\<dots> = sint i + 1"
    using lo hi assms by (intro signed_take_bit_int_eq_self) auto
  finally show ?thesis .
qed

lemma sint_succ_max:
  fixes i :: go_int
  assumes "sint i = 2 ^ 63 - 1"
  shows "i + 1 <s 1"
proof -
  have "sint (i + 1) = signed_take_bit 63 (sint i + 1)"
    by (simp add: sint_word_ariths)
  also have "\<dots> = signed_take_bit 63 (2 ^ 63 :: int)" using assms by simp
  also have "\<dots> = - (2 ^ 63)" by (simp add: signed_take_bit_eq_take_bit_minus)
  finally show ?thesis by (simp add: word_sless_alt)
qed

function multLoop :: "'n env \<Rightarrow> go_int \<Rightarrow> go_int \<Rightarrow> Page list \<Rightarrow> event list
    \<Rightarrow> (Page list \<times> error option) run \<times> event list" where
  "multLoop e i endPage pages tr =
     (if i <=s endPage then
        (case ScrapePage e i tr of
           (Panics m, tr') \<Rightarrow> (Panics m, tr')
         | (Returns (page, Some err), tr') \<Rightarrow> (Returns (pages, Some err), tr')
         | (Returns (page, None), tr') \<Rightarrow> multLoop e (i + 1) endPage (pages @ [page]) tr')
      else (Returns (pages, None), tr))"
  by pat_completeness auto
termination
proof (relation "measure (\<lambda>(e, i, endPage, pages, tr). if i <s 1 then 0 else nat (2 ^ 63 - sint i))")
  show "wf (measure (\<lambda>(e :: 'n env, i :: go_int, endPage :: go_int, pages :: Page list, tr :: event list).
     if i <s 1 then 0 else nat (2 ^ 63 - sint i)))" by simp
next
  fix e :: "'n env" and i endPage :: go_int and pages :: "Page list" and tr :: "event list"
    and x1 x2 x2a x1a x2b
  assume "i <=s endPage" and a: "(x1, x2) = ScrapePage e i tr" and b: "x1 = Returns x2a"
    and c: "(x1a, x2b) = x2a" and d: "x2b = None"
  have ok: "ScrapePage e i tr = (Returns (x1a, None), x2)" using a b c d by simp
  have pos: "\<not> i <s 1" using ScrapePage_ok_positive [OF ok] .
  have hi: "sint i < 2 ^ 63" using sint_lt [of i] by simp
  show "((e, i + 1, endPage, pages @ [x1a], x2), (e, i, endPage, pages, tr))
        \<in> measure (\<lambda>(e, i, endPage, pages, tr). if i <s 1 then 0 else nat (2 ^ 63 - sint i))"
  proof (cases "sint i = 2 ^ 63 - 1")
    case True
    then show ?thesis using pos sint_succ_max [OF True] by simp
  next
    case False
    then show ?thesis using pos hi sint_succ [OF False] by (simp add: word_sless_alt)
  qed
qed

definition ScrapeMultPages :: "'n env \<Rightarrow> go_int \<Rightarrow> go_int \<Rightarrow> event list
    \<Rightarrow> (Page list \<times> error option) run \<times> event list" where
  "ScrapeMultPages e startPage endPage tr =
     (if startPage <s 1 \<or> endPage <s 1
      then (Returns ([], Some (ErrorsNew ''page numbers must be positive integers'')), tr)
      else if endPage <s startPage
      then (Returns ([], Some (ErrorsNew
              ''starting page number cannot be larger than ending page number'')), tr)
      else multLoop e startPage endPage [] tr)"

section \<open>A sample site\<close>

text \<open>
  A concrete document layer, to run the package on explicit pages. A node carries the
  answer to each selector, its visible text and its attributes; a site maps each URL to
  the document served there and fails every other request.
\<close>

datatype hnode = HNode (found: "(string \<times> hnode list) list") (inner: string)
  (attrs: "(string \<times> string) list")

text \<open>A node without children, text or attributes: a spacer row, or an empty cell.\<close>

definition emptyNode :: hnode where
  "emptyNode = HNode [] [] []"

definition siteFind :: "hnode \<Rightarrow> string \<Rightarrow> hnode list" where
  "siteFind n q = (case map_of (found n) q of None \<Rightarrow> [] | Some ns \<Rightarrow> ns)"

definition siteAttr :: "hnode \<Rightarrow> string \<Rightarrow> string" where
  "siteAttr n a = (case map_of (attrs n) a of None \<Rightarrow> [] | Some v \<Rightarrow> v)"

definition siteParse :: "string \<Rightarrow> string \<Rightarrow> go_time \<times> error option" where
  "siteParse layout v =
     (if length v = length layout then (int (length v), None)
      else (0, Some (LibError ''parsing time'')))"

definition site :: "(string \<times> hnode) list \<Rightarrow> hnode env" where
  "site pages =
     \<lparr>LoadURL = (\<lambda>tr url. case map_of pages url of
                    None \<Rightarrow> (emptyNode, Some (LibError ''not found''))
                  | Some doc \<Rightarrow> (doc, None)),
      Now = (\<lambda>tr. int (length tr)),
      Find = siteFind,
      FindOne = (\<lambda>n q. case siteFind n q of [] \<Rightarrow> None | x # rest \<Rightarrow> Some x),
      InnerText = inner,
      SelectAttr = siteAttr,
      timeParse = siteParse\<rparr>"

definition textNode :: "string \<Rightarrow> hnode" where
  "textNode t = HNode [] t []"

definition titleRow :: "string \<Rightarrow> string \<Rightarrow> string \<Rightarrow> hnode" where
  "titleRow rankText title href =
     HNode [(''/td/a'', [HNode [] title [(''href'', href)]]),
            (''/td/span[contains(@class, 'rank')]'', [textNode rankText]),
            (''/td/a[contains(@class, 'titlelink')]'', [HNode [] title [(''href'', href)]])]
       [] []"

definition subtextCellAt :: "string \<Rightarrow> string list \<Rightarrow> string \<Rightarrow> hnode" where
  "subtextCellAt scoreText anchors age =
     HNode [(''/a[contains(@class, 'hnuser')]'', [textNode ''pg'']),
            (''/span[contains(@class, 'score')]'', [textNode scoreText]),
            (''/a]'', map textNode anchors),
            (''/span[contains(@class, 'age')]'', [HNode [] ''2 hours ago'' [(''title'', age)]])]
       [] []"

definition subtextCell :: "string \<Rightarrow> string list \<Rightarrow> hnode" where
  "subtextCell scoreText anchors = subtextCellAt scoreText anchors ''2021-03-04T05:06:07''"

definition subtextRow :: "hnode \<Rightarrow> hnode" where
  "subtextRow cell = HNode [(''/td[contains(@class, 'subtext')]'', [cell])] [] []"

definition document :: "hnode list \<Rightarrow> hnode" where
  "document rows = HNode [(''//table[contains(@class, 'itemlist')]/tbody/tr'', rows)] [] []"

text \<open>A row group: title row, subtext row and spacer row.\<close>

definition rowGroup :: "string \<Rightarrow> string \<Rightarrow> string list \<Rightarrow> hnode list" where
  "rowGroup rankText scoreText anchors =
     [titleRow rankText ''A title'' ''https://example.com/'',
      subtextRow (subtextCell scoreText anchors), emptyNode]"

text \<open>The address \<open>ScrapePage\<close> requests for a page number.\<close>

definition pageURL :: "go_int \<Rightarrow> string" where
  "pageURL n = hackernewsURL @ Itoa n"

text \<open>Two rows only: a title row and a subtext row without their spacer row.\<close>

definition shortSite :: "hnode env" where
  "shortSite = site [(pageURL 1,
     document [titleRow ''1.'' ''A title'' ''https://example.com/'',
               subtextRow (subtextCell ''10 points'' [''3 comments''])])]"

text \<open>Five rows: one full group, then a title row and a subtext row without spacer.\<close>

definition fiveRowSite :: "hnode env" where
  "fiveRowSite = site [(pageURL 1,
     document (rowGroup ''1.'' ''10 points'' [''pg'', ''hide'', ''3 comments'']
       @ [titleRow ''2.'' ''A title'' ''https://example.com/'',
          subtextRow (subtextCell ''7 points'' [''discuss''])]))]"

definition fiveRowPage :: Page where
  "fiveRowPage =
     \<lparr>Posts = [\<lparr>Rank = 1, Title = ''A title'', Score = 10, By = ''pg'',
                 URL = ''https://example.com/'', NumComments = 3, TimePosted = 19\<rparr>],
      Num = 1, Retrieved = 1\<rparr>"

text \<open>A well-formed subtext cell, a title row with a rank text that is no number, and a post.\<close>

definition goodSubtext :: hnode where
  "goodSubtext = subtextCell ''10 points'' [''pg'', ''hide'', ''3 comments'']"

definition badRankTitle :: hnode where
  "badRankTitle = titleRow ''x.'' ''A title'' ''https://example.com/''"

definition goodPost :: Post where
  "goodPost = \<lparr>Rank = 1, Title = ''A title'', Score = 10, By = ''pg'',
     URL = ''https://example.com/'', NumComments = 3, TimePosted = 19\<rparr>"

text \<open>Two full groups, with ranks 1 and 2.\<close>

definition twoPostSite :: "hnode env" where
  "twoPostSite = site [(pageURL 1,
     document (rowGroup ''1.'' ''10 points'' [''pg'', ''hide'', ''3 comments'']
       @ rowGroup ''2.'' ''1234 points'' [''discuss'']))]"

definition twoPostPage :: Page where
  "twoPostPage =
     \<lparr>Posts = [goodPost,
               \<lparr>Rank = 2, Title = ''A title'', Score = 1234, By = ''pg'',
                 URL = ''https://example.com/'', NumComments = 0, TimePosted = 19\<rparr>],
      Num = 1, Retrieved = 1\<rparr>"

text \<open>Two full groups whose rank texts are "2." and then "1.".\<close>

definition swappedSite :: "hnode env" where
  "swappedSite = site [(pageURL 1,
     document (rowGroup ''2.'' ''10 points'' [''pg'', ''hide'', ''3 comments'']
       @ rowGroup ''1.'' ''1234 points'' [''discuss'']))]"

definition swappedPage :: Page where
  "swappedPage =
     \<lparr>Posts = [\<lparr>Rank = 2, Title = ''A title'', Score = 10, By = ''pg'',
                 URL = ''https://example.com/'', NumComments = 3, TimePosted = 19\<rparr>,
               \<lparr>Rank = 1, Title = ''A title'', Score = 1234, By = ''pg'',
                 URL = ''https://example.com/'', NumComments = 0, TimePosted = 19\<rparr>],
      Num = 1, Retrieved = 1\<rparr>"

text \<open>A site that serves an empty document for the largest page number of an \<open>int\<close>.\<close>

definition lastPageSite :: "hnode env" where
  "lastPageSite = site [(pageURL 9223372036854775807, document [])]"

text \<open>One full group whose rank span has no text.\<close>

definition emptyRankSite :: "hnode env" where
  "emptyRankSite = site [(pageURL 1, document (rowGroup [] ''10 points'' [''discuss'']))]"

text \<open>Two groups, the second with a second row that has no subtext cell.\<close>

definition noSubtextSite :: "hnode env" where
  "noSubtextSite = site [(pageURL 1,
     document (rowGroup ''1.'' ''10 points'' [''pg'', ''hide'', ''3 comments'']
       @ [titleRow ''2.'' ''A title'' ''https://example.com/'', emptyNode, emptyNode]))]"

text \<open>Three pages, each an empty document, and what scraping them in turn gives.\<close>

definition threePageSite :: "hnode env" where
  "threePageSite =
     site [(pageURL 1, document []), (pageURL 2, document []), (pageURL 3, document [])]"

definition threePages :: "Page list" where
  "threePages =
     [\<lparr>Posts = [], Num = 1, Retrieved = 1\<rparr>, \<lparr>Posts = [], Num = 2, Retrieved = 3\<rparr>,
      \<lparr>Posts = [], Num = 3, Retrieved = 5\<rparr>]"

text \<open>A title row with the given text in its rank-marked span.\<close>

definition rankRow :: "string \<Rightarrow> hnode" where
  "rankRow rankText = titleRow rankText ''A title'' ''https://example.com/''"

section \<open>Notions for stating the properties\<close>

text \<open>
  The result of the row extractor on the \<open>k\<close>-th row group of a list of rows, the rows
  that \<open>ScrapePage\<close> finds in the document it loads, the events after its request
  and its clock reading, and the time it records.
\<close>

definition rowPost :: "'n env \<Rightarrow> 'n list \<Rightarrow> nat \<Rightarrow> (Post \<times> error option) run" where
  "rowPost e listNodes k =
     getPost e (listNodes ! (3 * k))
       (FindOne e (listNodes ! (3 * k + 1)) ''/td[contains(@class, 'subtext')]'')"

definition pageRows :: "'n env \<Rightarrow> event list \<Rightarrow> go_int \<Rightarrow> 'n list" where
  "pageRows e tr pageNum =
     Find e (fst (LoadURL e tr (pageURL pageNum)))
       ''//table[contains(@class, 'itemlist')]/tbody/tr''"

definition fetched :: "event list \<Rightarrow> go_int \<Rightarrow> event list" where
  "fetched tr pageNum = tr @ [Fetch (pageURL pageNum), Clock]"

definition retrievedAt :: "'n env \<Rightarrow> event list \<Rightarrow> go_int \<Rightarrow> go_time" where
  "retrievedAt e tr pageNum = Now e (tr @ [Fetch (pageURL pageNum)])"

text \<open>
  The events after \<open>m\<close> consecutive pages from \<open>startPage\<close> on were requested: one
  request and one clock reading for each, in ascending order of the page number.
\<close>

definition eventsAfter :: "event list \<Rightarrow> go_int \<Rightarrow> nat \<Rightarrow> event list" where
  "eventsAfter tr startPage m =
     tr @ concat (map (\<lambda>j. [Fetch (pageURL (startPage + of_nat j)), Clock]) [0..<m])"

text \<open>
  The number a string of decimal digits denotes; a string without its leading sign;
  whether a string is an optional sign followed by at least one decimal digit; and, for a
  subtext cell, whether one of its anchors contains "discuss", its anchors that
  contain "comment", and the digits in the text of the last of these. The rank-marked
  spans of a title row.
\<close>

definition digitsValue :: "string \<Rightarrow> int" where
  "digitsValue s = foldl (\<lambda>n c. n * 10 + digit_val c) 0 s"

definition signless :: "string \<Rightarrow> string" where
  "signless s = (if s \<noteq> [] \<and> (hd s = CHR ''+'' \<or> hd s = CHR ''-'') then tl s else s)"

definition numeric :: "string \<Rightarrow> bool" where
  "numeric s = (signless s \<noteq> [] \<and> list_all is_digit (signless s))"

definition hasDiscuss :: "'n env \<Rightarrow> 'n \<Rightarrow> bool" where
  "hasDiscuss e node = list_ex (\<lambda>a. Contains (InnerText e a) ''discuss'') (Find e node ''/a]'')"

definition commentAnchors :: "'n env \<Rightarrow> 'n \<Rightarrow> 'n list" where
  "commentAnchors e node = filter (\<lambda>a. Contains (InnerText e a) ''comment'') (Find e node ''/a]'')"

definition commentDigits :: "'n env \<Rightarrow> 'n \<Rightarrow> string" where
  "commentDigits e node = stripNonDigits (InnerText e (last (commentAnchors e node)))"

definition rankSpans :: "'n env \<Rightarrow> 'n \<Rightarrow> 'n list" where
  "rankSpans e node = Find e node ''/td/span[contains(@class, 'rank')]''"

section \<open>The loop over the rows\<close>

declare postsLoop.simps [simp del]

lemma postsLoop_step:
  assumes "j < length ls div 3"
  shows "postsLoop e ls (3 * int j) posts =
     (case rowPost e ls j of
        Panics m \<Rightarrow> Panics m
      | Returns (post, Some err) \<Rightarrow> Returns (posts, Some err)
      | Returns (post, None) \<Rightarrow> postsLoop e ls (3 * int (Suc j)) (posts @ [post]))"
proof -
  have lt: "3 * int j < int (length ls) - 2" using assms by linarith
  have n0: "nat (3 * int j) = 3 * j" by simp
  have n1: "nat (3 * int j + 1) = 3 * j + 1" by linarith
  have n3: "3 * int j + 3 = 3 * int (Suc j)" by simp
  show ?thesis
    by (subst postsLoop.simps)
      (simp add: lt n0 n1 n3 rowPost_def Let_def del: of_nat_Suc
        split: run.splits prod.splits option.splits)
qed

lemma postsLoop_done:
  assumes "length ls div 3 \<le> j"
  shows "postsLoop e ls (3 * int j) posts = Returns (posts, None)"
proof -
  have "\<not> 3 * int j < int (length ls) - 2" using assms by linarith
  then show ?thesis by (subst postsLoop.simps) simp
qed

lemma postsLoop_prefix:
  assumes "\<And>k. k < length new \<Longrightarrow> rowPost e ls (j + k) = Returns (new ! k, None)"
    and "j + length new \<le> length ls div 3"
  shows "postsLoop e ls (3 * int j) posts = postsLoop e ls (3 * int (j + length new)) (posts @ new)"
  using assms
proof (induction new arbitrary: j posts)
  case Nil
  then show ?case by simp
next
  case (Cons p new)
  have j_lt: "j < length ls div 3" using Cons.prems(2) by simp
  have first: "rowPost e ls j = Returns (p, None)" using Cons.prems(1) [of 0] by simp
  have rest: "\<And>k. k < length new \<Longrightarrow> rowPost e ls (Suc j + k) = Returns (new ! k, None)"
    using Cons.prems(1) [of "Suc k" for k] by simp
  have "postsLoop e ls (3 * int j) posts = postsLoop e ls (3 * int (Suc j)) (posts @ [p])"
    by (simp add: postsLoop_step [OF j_lt] first del: of_nat_Suc)
  also have "\<dots> = postsLoop e ls (3 * int (Suc j + length new)) ((posts @ [p]) @ new)"
    using Cons.prems(2) by (intro Cons.IH rest) simp_all
  finally show ?case by simp
qed

lemma postsLoop_ok:
  assumes "postsLoop e ls (3 * int j) posts = Returns (ps, None)"
  shows "\<exists>new. ps = posts @ new \<and> length new = length ls div 3 - j
     \<and> (\<forall>k<length new. rowPost e ls (j + k) = Returns (new ! k, None))"
  using assms
proof (induction "length ls div 3 - j" arbitrary: j posts)
  case 0
  then have "length ls div 3 \<le> j" by simp
  then show ?case using "0.prems" by (simp add: postsLoop_done)
next
  case (Suc d)
  then have j_lt: "j < length ls div 3" by simp
  from Suc.prems obtain p where first: "rowPost e ls j = Returns (p, None)"
    and rest: "postsLoop e ls (3 * int (Suc j)) (posts @ [p]) = Returns (ps, None)"
    by (auto simp: postsLoop_step [OF j_lt] split: run.splits option.splits prod.splits)
  have "d = length ls div 3 - Suc j" using Suc.hyps(2) by simp
  from Suc.hyps(1) [OF this rest] obtain new where new: "ps = (posts @ [p]) @ new"
    "length new = length ls div 3 - Suc j"
    "\<forall>k<length new. rowPost e ls (Suc j + k) = Returns (new ! k, None)" by blast
  have "\<forall>k<length (p # new). rowPost e ls (j + k) = Returns ((p # new) ! k, None)"
  proof (intro allI impI)
    fix k assume "k < length (p # new)"
    then show "rowPost e ls (j + k) = Returns ((p # new) ! k, None)"
      using first new(3) by (cases k) auto
  qed
  moreover have "length (p # new) = length ls div 3 - j" using new(2) j_lt by simp
  moreover have "ps = posts @ (p # new)" using new(1) by simp
  ultimately show ?case by blast
qed

lemma ScrapePage_loaded:
  assumes "\<not> pageNum <s 1" and "snd (LoadURL e tr (pageURL pageNum)) = None"
  shows "ScrapePage e pageNum tr =
     (case postsLoop e (pageRows e tr pageNum) 0 [] of
        Panics m \<Rightarrow> (Panics m, fetched tr pageNum)
      | Returns (posts, Some er) \<Rightarrow> (Returns (zeroPage, Some er), fetched tr pageNum)
      | Returns (posts, None) \<Rightarrow>
          (Returns (\<lparr>Posts = posts, Num = pageNum, Retrieved = retrievedAt e tr pageNum\<rparr>, None),
           fetched tr pageNum))"
  using assms unfolding fetched_def retrievedAt_def pageRows_def pageURL_def
  by (cases "LoadURL e tr (hackernewsURL @ Itoa pageNum)")
    (simp add: ScrapePage_def Let_def split: run.splits prod.splits option.splits)

lemma ScrapePage_fetch_error:
  assumes "\<not> pageNum <s 1" and "snd (LoadURL e tr (pageURL pageNum)) = Some er"
  shows "ScrapePage e pageNum tr = (Returns (zeroPage, Some er), fetched tr pageNum)"
  using assms
  by (cases "LoadURL e tr (pageURL pageNum)")
    (simp add: ScrapePage_def fetched_def pageURL_def Let_def)

lemma ScrapePage_ok_loaded:
  assumes "ScrapePage e pageNum tr = (Returns (page, None), tr')"
  shows "\<not> pageNum <s 1 \<and> snd (LoadURL e tr (pageURL pageNum)) = None"
proof -
  have pos: "\<not> pageNum <s 1" using assms by (rule ScrapePage_ok_positive)
  have "snd (LoadURL e tr (pageURL pageNum)) = None"
  proof (cases "snd (LoadURL e tr (pageURL pageNum))")
    case None
    then show ?thesis .
  next
    case (Some er)
    then show ?thesis using assms ScrapePage_fetch_error [OF pos Some] by simp
  qed
  then show ?thesis using pos by simp
qed

lemma ScrapePage_ok_posts:
  assumes "ScrapePage e pageNum tr = (Returns (page, None), tr')"
  shows "postsLoop e (pageRows e tr pageNum) 0 [] = Returns (Posts page, None)
     \<and> Num page = pageNum \<and> Retrieved page = retrievedAt e tr pageNum
     \<and> tr' = fetched tr pageNum"
proof -
  from ScrapePage_ok_loaded [OF assms] have pos: "\<not> pageNum <s 1"
    and ld: "snd (LoadURL e tr (pageURL pageNum)) = None" by simp_all
  show ?thesis using assms
    by (auto simp: ScrapePage_loaded [OF pos ld] split: run.splits option.splits prod.splits)
qed

section \<open>Validation of the page numbers\<close>

text \<open>
  C5. A page number below 1 makes \<open>ScrapePage\<close> return the zero \<open>Page\<close> and the error
  "page number must be a positive integer"; a start or end below 1, or a start above the
  end, makes \<open>ScrapeMultPages\<close> return no page and its error. In each case the list of
  events is the one the call started with: no request was made and the clock was not
  read.
\<close>

theorem invalid_input_before_network:
  "(pageNum <s 1 \<longrightarrow>
      ScrapePage e pageNum tr =
        (Returns (zeroPage, Some (ErrorsNew ''page number must be a positive integer'')), tr))
   \<and> (startPage <s 1 \<or> endPage <s 1 \<longrightarrow>
      ScrapeMultPages e startPage endPage tr =
        (Returns ([], Some (ErrorsNew ''page numbers must be positive integers'')), tr))
   \<and> (\<not> startPage <s 1 \<and> \<not> endPage <s 1 \<and> endPage <s startPage \<longrightarrow>
      ScrapeMultPages e startPage endPage tr =
        (Returns ([], Some (ErrorsNew
           ''starting page number cannot be larger than ending page number'')), tr))"
  by (simp add: ScrapePage_def ScrapeMultPages_def)

theorem invalid_input_before_network_witness:
  "(0 :: go_int) <s 1
   \<and> ScrapePage (site []) 0 [] =
        (Returns (zeroPage, Some (ErrorsNew ''page number must be a positive integer'')), [])
   \<and> (- 1 :: go_int) <s 1
   \<and> ScrapeMultPages (site []) (- 1) 2 [] =
        (Returns ([], Some (ErrorsNew ''page numbers must be positive integers'')), [])
   \<and> (2 :: go_int) <s 3 \<and> \<not> (2 :: go_int) <s 1 \<and> \<not> (3 :: go_int) <s 1
   \<and> ScrapeMultPages (site []) 3 2 [] =
        (Returns ([], Some (ErrorsNew
           ''starting page number cannot be larger than ending page number'')), [])"
  using invalid_input_before_network [of 0 "site []" "[]" "- 1" 2]
    invalid_input_before_network [of 0 "site []" "[]" 3 2]
  by (simp add: word_sless_alt)

section \<open>Rows are taken in groups of three\<close>

lemma rowPost_take:
  assumes "j < length ls div 3"
  shows "rowPost e (take (3 * (length ls div 3)) ls) j = rowPost e ls j"
proof -
  have "3 * j < 3 * (length ls div 3)" "3 * j + 1 < 3 * (length ls div 3)"
    using assms by simp_all
  then show ?thesis by (simp add: rowPost_def)
qed

lemma length_take_groups: "length (take (3 * (length ls div 3)) ls) div 3 = length ls div 3"
proof -
  have "3 * (length ls div 3) \<le> length ls" by simp
  then have "length (take (3 * (length ls div 3)) ls) = 3 * (length ls div 3)" by simp
  then show ?thesis by simp
qed

lemma postsLoop_take:
  "postsLoop e ls (3 * int j) posts = postsLoop e (take (3 * (length ls div 3)) ls) (3 * int j) posts"
proof (induction "length ls div 3 - j" arbitrary: j posts)
  case 0
  then have "length ls div 3 \<le> j" by simp
  then show ?case by (simp add: postsLoop_done length_take_groups)
next
  case (Suc d)
  then have j_lt: "j < length ls div 3" by simp
  have j_lt': "j < length (take (3 * (length ls div 3)) ls) div 3"
    using j_lt by (simp only: length_take_groups)
  have d: "d = length ls div 3 - Suc j" using Suc.hyps(2) by simp
  show ?case
    unfolding postsLoop_step [OF j_lt] postsLoop_step [OF j_lt'] rowPost_take [OF j_lt]
    using Suc.hyps(1) [OF d]
    by (simp split: run.splits prod.splits option.splits)
qed

text \<open>
  C10. Let a page number of at least 1 be given whose document loads without error, and
  let the row query yield \<open>n\<close> rows. With fewer than three rows \<open>ScrapePage\<close> returns no
  error and a \<open>Page\<close> without posts. Whenever it returns no error, its posts are
  \<open>n div 3\<close> many, and the \<open>k\<close>-th is what the row extractor gives for rows \<open>3k\<close> and
  \<open>3k+1\<close>; it returns no error as soon as each of these \<open>n div 3\<close> groups is extracted
  without error. The rows after the last full group have no effect on the loop: a
  trailing title and subtext row without spacer row is neither extracted nor reported.
\<close>

theorem rows_in_groups_of_three:
  assumes "\<not> pageNum <s 1" and "snd (LoadURL e tr (pageURL pageNum)) = None"
  shows "(length (pageRows e tr pageNum) < 3 \<longrightarrow>
            ScrapePage e pageNum tr =
              (Returns (\<lparr>Posts = [], Num = pageNum, Retrieved = retrievedAt e tr pageNum\<rparr>, None),
               fetched tr pageNum))
       \<and> (\<forall>page tr'. ScrapePage e pageNum tr = (Returns (page, None), tr') \<longrightarrow>
            length (Posts page) = length (pageRows e tr pageNum) div 3
            \<and> (\<forall>k < length (pageRows e tr pageNum) div 3.
                  rowPost e (pageRows e tr pageNum) k = Returns (Posts page ! k, None)))
       \<and> ((\<forall>k < length (pageRows e tr pageNum) div 3.
              \<exists>post. rowPost e (pageRows e tr pageNum) k = Returns (post, None)) \<longrightarrow>
            (\<exists>page. ScrapePage e pageNum tr = (Returns (page, None), fetched tr pageNum)))
       \<and> postsLoop e (pageRows e tr pageNum) 0 [] =
            postsLoop e (take (3 * (length (pageRows e tr pageNum) div 3)) (pageRows e tr pageNum)) 0 []"
proof (intro conjI impI allI)
  let ?rows = "pageRows e tr pageNum"
  note loaded = ScrapePage_loaded [OF assms]
  {
    assume "length ?rows < 3"
    then have "length ?rows div 3 \<le> 0" by simp
    from postsLoop_done [OF this, of e "[]"]
    show "ScrapePage e pageNum tr =
      (Returns (\<lparr>Posts = [], Num = pageNum, Retrieved = retrievedAt e tr pageNum\<rparr>, None),
       fetched tr pageNum)"
      by (simp add: loaded)
  }
  {
    fix page tr'
    assume ok: "ScrapePage e pageNum tr = (Returns (page, None), tr')"
    from ScrapePage_ok_posts [OF ok]
    have "postsLoop e ?rows (3 * int 0) [] = Returns (Posts page, None)" by simp
    from postsLoop_ok [OF this]
    show "length (Posts page) = length ?rows div 3" by auto
    {
      fix k assume "k < length ?rows div 3"
      with postsLoop_ok [OF \<open>postsLoop e ?rows (3 * int 0) [] = Returns (Posts page, None)\<close>]
      show "rowPost e ?rows k = Returns (Posts page ! k, None)" by auto
    }
  }
  {
    assume all: "\<forall>k < length ?rows div 3. \<exists>post. rowPost e ?rows k = Returns (post, None)"
    then obtain f where f: "\<And>k. k < length ?rows div 3 \<Longrightarrow> rowPost e ?rows k = Returns (f k, None)"
      by metis
    define new where "new = map f [0..<length ?rows div 3]"
    have len: "length new = length ?rows div 3" by (simp add: new_def)
    have "\<And>k. k < length new \<Longrightarrow> rowPost e ?rows (0 + k) = Returns (new ! k, None)"
      using f by (simp add: new_def)
    from postsLoop_prefix [of new e ?rows 0 "[]", OF this]
    have "postsLoop e ?rows 0 [] = postsLoop e ?rows (3 * int (length new)) new"
      by (simp add: len)
    also have "\<dots> = Returns (new, None)" by (simp add: postsLoop_done len)
    finally show "\<exists>page. ScrapePage e pageNum tr = (Returns (page, None), fetched tr pageNum)"
      by (simp add: loaded)
  }
  show "postsLoop e ?rows 0 [] = postsLoop e (take (3 * (length ?rows div 3)) ?rows) 0 []"
    using postsLoop_take [of e ?rows 0 "[]"] by simp
qed
theorem rows_in_groups_of_three_witness:
  "\<not> (1 :: go_int) <s 1
   \<and> snd (LoadURL shortSite [] (pageURL 1)) = None
   \<and> length (pageRows shortSite [] 1) < 3
   \<and> ScrapePage shortSite 1 [] =
        (Returns (\<lparr>Posts = [], Num = 1, Retrieved = retrievedAt shortSite [] 1\<rparr>, None),
         fetched [] 1)
   \<and> snd (LoadURL fiveRowSite [] (pageURL 1)) = None
   \<and> length (pageRows fiveRowSite [] 1) = 5
   \<and> ScrapePage fiveRowSite 1 [] = (Returns (fiveRowPage, None), fetched [] 1)
   \<and> length (Posts fiveRowPage) = length (pageRows fiveRowSite [] 1) div 3"
proof -
  have pos: "\<not> (1 :: go_int) <s 1" by (simp add: word_sless_alt)
  have ld: "snd (LoadURL shortSite [] (pageURL 1)) = None" by code_simp
  have few: "length (pageRows shortSite [] 1) < 3" by code_simp
  have short: "ScrapePage shortSite 1 [] =
      (Returns (\<lparr>Posts = [], Num = 1, Retrieved = retrievedAt shortSite [] 1\<rparr>, None),
       fetched [] 1)"
    using rows_in_groups_of_three [OF pos ld] few by blast
  have ld5: "snd (LoadURL fiveRowSite [] (pageURL 1)) = None" by code_simp
  have five: "length (pageRows fiveRowSite [] 1) = 5" by code_simp
  have ok: "ScrapePage fiveRowSite 1 [] = (Returns (fiveRowPage, None), fetched [] 1)"
    by code_simp
  have groups: "length (Posts fiveRowPage) = length (pageRows fiveRowSite [] 1) div 3"
    using rows_in_groups_of_three [OF pos ld5] ok by blast
  show ?thesis using pos ld few short ld5 five ok groups by simp
qed

section \<open>Post assembly\<close>

lemma getPost_ok_fields:
  assumes "getPost e t s = Returns (p, None)"
  shows "getRank e t = Returns (Rank p, None) \<and> getTitle e t = (Title p, None)
     \<and> getURL e t = (URL p, None) \<and> getAuthor e s = Returns (By p, None)
     \<and> (\<exists>n. s = Some n \<and> getPoints e n = (Score p, None)
            \<and> getNumComments e n = (NumComments p, None)
            \<and> getTimePosted e n = (TimePosted p, None))"
  using assms
  by (auto simp: getPost_def split: prod.splits option.splits run.splits)

lemma postsLoop_first_error:
  assumes "k < length ls div 3"
    and "\<forall>j<k. \<exists>p. rowPost e ls j = Returns (p, None)"
    and "rowPost e ls k = Returns (q, Some err)"
  shows "\<exists>posts. postsLoop e ls 0 [] = Returns (posts, Some err) \<and> length posts = k"
proof -
  from assms(2) obtain f where f: "\<And>j. j < k \<Longrightarrow> rowPost e ls j = Returns (f j, None)"
    by metis
  define new where "new = map f [0..<k]"
  have len: "length new = k" by (simp add: new_def)
  have "\<And>j. j < length new \<Longrightarrow> rowPost e ls (0 + j) = Returns (new ! j, None)"
    using f by (simp add: new_def)
  from postsLoop_prefix [of new e ls 0 "[]", OF this]
  have "postsLoop e ls 0 [] = postsLoop e ls (3 * int k) new"
    using assms(1) by (simp add: len)
  also have "\<dots> = Returns (new, Some err)"
    by (simp add: postsLoop_step [OF assms(1)] assms(3))
  finally show ?thesis using len by blast
qed

lemma postsLoop_first_panic:
  assumes "k < length ls div 3"
    and "\<forall>j<k. \<exists>p. rowPost e ls j = Returns (p, None)"
    and "rowPost e ls k = Panics m"
  shows "postsLoop e ls 0 [] = Panics m"
proof -
  from assms(2) obtain f where f: "\<And>j. j < k \<Longrightarrow> rowPost e ls j = Returns (f j, None)"
    by metis
  define new where "new = map f [0..<k]"
  have len: "length new = k" by (simp add: new_def)
  have "\<And>j. j < length new \<Longrightarrow> rowPost e ls (0 + j) = Returns (new ! j, None)"
    using f by (simp add: new_def)
  from postsLoop_prefix [of new e ls 0 "[]", OF this]
  have "postsLoop e ls 0 [] = postsLoop e ls (3 * int k) new"
    using assms(1) by (simp add: len)
  also have "\<dots> = Panics m"
    by (simp add: postsLoop_step [OF assms(1)] assms(3))
  finally show ?thesis .
qed

text \<open>
  What \<open>getPost\<close> and \<open>ScrapePage\<close> do when an extractor returns an error. The extractors
  run in the order title, rank, URL, author, score, comment count, timestamp; the first to
  return an error makes \<open>getPost\<close> return the zero \<open>Post\<close> with that error, and
  \<open>getAuthor\<close> returns none. When the row extractor returns an error for row group \<open>k\<close>
  after succeeding on the groups before it, \<open>ScrapePage\<close> returns the zero \<open>Page\<close> with
  that error.
\<close>

lemma first_error_aborts_assembly:
  "(snd (getTitle e t) = Some err \<longrightarrow> getPost e t s = Returns (zeroPost, Some err))
   \<and> (snd (getTitle e t) = None \<and> getRank e t = Returns (r, Some err) \<longrightarrow>
        getPost e t s = Returns (zeroPost, Some err))
   \<and> (snd (getTitle e t) = None \<and> getRank e t = Returns (r, None)
        \<and> snd (getURL e t) = Some err \<longrightarrow>
        getPost e t s = Returns (zeroPost, Some err))
   \<and> (\<exists>a. getAuthor e (Some n) = Returns (a, None))
   \<and> (snd (getTitle e t) = None \<and> getRank e t = Returns (r, None)
        \<and> snd (getURL e t) = None \<and> snd (getPoints e n) = Some err \<longrightarrow>
        getPost e t (Some n) = Returns (zeroPost, Some err))
   \<and> (snd (getTitle e t) = None \<and> getRank e t = Returns (r, None)
        \<and> snd (getURL e t) = None \<and> snd (getPoints e n) = None
        \<and> snd (getNumComments e n) = Some err \<longrightarrow>
        getPost e t (Some n) = Returns (zeroPost, Some err))
   \<and> (snd (getTitle e t) = None \<and> getRank e t = Returns (r, None)
        \<and> snd (getURL e t) = None \<and> snd (getPoints e n) = None
        \<and> snd (getNumComments e n) = None \<and> snd (getTimePosted e n) = Some err \<longrightarrow>
        getPost e t (Some n) = Returns (zeroPost, Some err))
   \<and> (snd (getTitle e t) = None \<and> getRank e t = Returns (r, None)
        \<and> snd (getURL e t) = None \<and> getAuthor e (Some n) = Returns (a, None)
        \<and> snd (getPoints e n) = None
        \<and> snd (getNumComments e n) = None \<and> snd (getTimePosted e n) = None \<longrightarrow>
        getPost e t (Some n) =
          Returns (\<lparr>Rank = r, Title = fst (getTitle e t), Score = fst (getPoints e n),
                    By = a, URL = fst (getURL e t),
                    NumComments = fst (getNumComments e n),
                    TimePosted = fst (getTimePosted e n)\<rparr>, None))
   \<and> (\<not> pageNum <s 1 \<and> snd (LoadURL e tr (pageURL pageNum)) = None
        \<and> k < length (pageRows e tr pageNum) div 3
        \<and> (\<forall>j<k. \<exists>p. rowPost e (pageRows e tr pageNum) j = Returns (p, None))
        \<and> rowPost e (pageRows e tr pageNum) k = Returns (q, Some err) \<longrightarrow>
        ScrapePage e pageNum tr = (Returns (zeroPage, Some err), fetched tr pageNum))"
proof -
  have author: "\<exists>a. getAuthor e (Some n) = Returns (a, None)"
    by (simp add: getAuthor_def Let_def)
  have page: "ScrapePage e pageNum tr = (Returns (zeroPage, Some err), fetched tr pageNum)"
    if "\<not> pageNum <s 1" "snd (LoadURL e tr (pageURL pageNum)) = None"
      "k < length (pageRows e tr pageNum) div 3"
      "\<forall>j<k. \<exists>p. rowPost e (pageRows e tr pageNum) j = Returns (p, None)"
      "rowPost e (pageRows e tr pageNum) k = Returns (q, Some err)"
  proof -
    from postsLoop_first_error [OF that(3) that(4) that(5)] obtain posts
      where "postsLoop e (pageRows e tr pageNum) 0 [] = Returns (posts, Some err)" by blast
    then show ?thesis by (simp add: ScrapePage_loaded [OF that(1) that(2)])
  qed
  show ?thesis
    using author page
    by (auto simp: getPost_def split: prod.splits option.splits run.splits)
qed

text \<open>
  What they do when an extractor panics: the panic of \<open>getRank\<close> or \<open>getAuthor\<close> is the
  outcome of \<open>getPost\<close> when the extractors before it returned no error, a nil subtext
  node makes \<open>getAuthor\<close> panic, and a panic of the row extractor for row group \<open>k\<close>,
  after the groups before it succeeded, is the outcome of \<open>ScrapePage\<close>: no \<open>Page\<close> and
  no error value are returned.
\<close>

lemma panic_aborts_assembly:
  "(snd (getTitle e t) = None \<and> getRank e t = Panics m \<longrightarrow> getPost e t s = Panics m)
   \<and> getAuthor e None = Panics nilDereference
   \<and> (snd (getTitle e t) = None \<and> getRank e t = Returns (r, None)
        \<and> snd (getURL e t) = None \<longrightarrow> getPost e t None = Panics nilDereference)
   \<and> (\<not> pageNum <s 1 \<and> snd (LoadURL e tr (pageURL pageNum)) = None
        \<and> k < length (pageRows e tr pageNum) div 3
        \<and> (\<forall>j<k. \<exists>p. rowPost e (pageRows e tr pageNum) j = Returns (p, None))
        \<and> rowPost e (pageRows e tr pageNum) k = Panics m \<longrightarrow>
        ScrapePage e pageNum tr = (Panics m, fetched tr pageNum))"
proof -
  have page: "ScrapePage e pageNum tr = (Panics m, fetched tr pageNum)"
    if "\<not> pageNum <s 1" "snd (LoadURL e tr (pageURL pageNum)) = None"
      "k < length (pageRows e tr pageNum) div 3"
      "\<forall>j<k. \<exists>p. rowPost e (pageRows e tr pageNum) j = Returns (p, None)"
      "rowPost e (pageRows e tr pageNum) k = Panics m"
    using postsLoop_first_panic [OF that(3) that(4) that(5)]
    by (simp add: ScrapePage_loaded [OF that(1) that(2)])
  show ?thesis
    using page
    by (auto simp: getPost_def getAuthor_def split: prod.splits option.splits run.splits)
qed

text \<open>
  C7 fails on a row group whose second row has no subtext cell. \<open>FindOne\<close> gives nil for
  it, the title, rank and URL are extracted, and \<open>getAuthor\<close> panics on the nil node. So
  this row-extraction failure does not make \<open>ScrapePage\<close> return an error with an empty
  \<open>Page\<close>: \<open>getPost\<close> and \<open>ScrapePage\<close> panic, here on a page whose first row group is
  extracted without error.
\<close>

theorem row_without_subtext_panics:
  "length (pageRows noSubtextSite [] 1) = 6
   \<and> FindOne noSubtextSite (pageRows noSubtextSite [] 1 ! 4)
        ''/td[contains(@class, 'subtext')]'' = None
   \<and> snd (getTitle noSubtextSite (pageRows noSubtextSite [] 1 ! 3)) = None
   \<and> getRank noSubtextSite (pageRows noSubtextSite [] 1 ! 3) = Returns (2, None)
   \<and> snd (getURL noSubtextSite (pageRows noSubtextSite [] 1 ! 3)) = None
   \<and> getPost noSubtextSite (pageRows noSubtextSite [] 1 ! 3) None = Panics nilDereference
   \<and> rowPost noSubtextSite (pageRows noSubtextSite [] 1) 0 = Returns (goodPost, None)
   \<and> rowPost noSubtextSite (pageRows noSubtextSite [] 1) 1 = Panics nilDereference
   \<and> ScrapePage noSubtextSite 1 [] = (Panics nilDereference, fetched [] 1)"
proof -
  have a: "length (pageRows noSubtextSite [] 1) = 6" by code_simp
  have b: "FindOne noSubtextSite (pageRows noSubtextSite [] 1 ! 4)
      ''/td[contains(@class, 'subtext')]'' = None" by code_simp
  have c: "snd (getTitle noSubtextSite (pageRows noSubtextSite [] 1 ! 3)) = None" by code_simp
  have d: "getRank noSubtextSite (pageRows noSubtextSite [] 1 ! 3) = Returns (2, None)"
    by code_simp
  have f: "snd (getURL noSubtextSite (pageRows noSubtextSite [] 1 ! 3)) = None" by code_simp
  have g: "getPost noSubtextSite (pageRows noSubtextSite [] 1 ! 3) None = Panics nilDereference"
    by code_simp
  have h: "rowPost noSubtextSite (pageRows noSubtextSite [] 1) 0 = Returns (goodPost, None)"
    by code_simp
  have i: "rowPost noSubtextSite (pageRows noSubtextSite [] 1) 1 = Panics nilDereference"
    by code_simp
  have j: "ScrapePage noSubtextSite 1 [] = (Panics nilDereference, fetched [] 1)"
    by code_simp
  show ?thesis by (intro conjI; rule a b c d f g h i j)
qed

section \<open>Ranks\<close>

text \<open>
  C8, as the code has it. When \<open>ScrapePage\<close> returns no error, the \<open>k\<close>-th post carries
  the rank that \<open>getRank\<close> reads from the title row of the \<open>k\<close>-th row group, in the order
  of the document. The ranks are not compared with each other.
\<close>

theorem ranks_follow_rows:
  assumes "ScrapePage e pageNum tr = (Returns (page, None), tr')"
  shows "length (Posts page) = length (pageRows e tr pageNum) div 3
     \<and> (\<forall>k<length (Posts page).
           getRank e (pageRows e tr pageNum ! (3 * k)) = Returns (Rank (Posts page ! k), None))"
proof -
  from ScrapePage_ok_posts [OF assms]
  have "postsLoop e (pageRows e tr pageNum) (3 * int 0) [] = Returns (Posts page, None)" by simp
  from postsLoop_ok [OF this]
  have len: "length (Posts page) = length (pageRows e tr pageNum) div 3"
    and each: "\<forall>k<length (Posts page).
       rowPost e (pageRows e tr pageNum) k = Returns (Posts page ! k, None)"
    by auto
  have "getRank e (pageRows e tr pageNum ! (3 * k)) = Returns (Rank (Posts page ! k), None)"
    if "k < length (Posts page)" for k
  proof -
    from each that
    have "rowPost e (pageRows e tr pageNum) k = Returns (Posts page ! k, None)" by simp
    then have "getPost e (pageRows e tr pageNum ! (3 * k))
        (FindOne e (pageRows e tr pageNum ! (3 * k + 1)) ''/td[contains(@class, 'subtext')]'')
      = Returns (Posts page ! k, None)"
      unfolding rowPost_def .
    from getPost_ok_fields [OF this] show ?thesis by simp
  qed
  then show ?thesis using len by blast
qed

theorem ranks_follow_rows_witness:
  "ScrapePage twoPostSite 1 [] = (Returns (twoPostPage, None), fetched [] 1)
   \<and> length (Posts twoPostPage) = length (pageRows twoPostSite [] 1) div 3
   \<and> getRank twoPostSite (pageRows twoPostSite [] 1 ! (3 * 0)) =
        Returns (Rank (Posts twoPostPage ! 0), None)
   \<and> getRank twoPostSite (pageRows twoPostSite [] 1 ! (3 * 1)) =
        Returns (Rank (Posts twoPostPage ! 1), None)"
proof -
  have ok: "ScrapePage twoPostSite 1 [] = (Returns (twoPostPage, None), fetched [] 1)"
    by code_simp
  have two: "length (Posts twoPostPage) = 2" by code_simp
  note rows = ranks_follow_rows [OF ok]
  have len: "length (Posts twoPostPage) = length (pageRows twoPostSite [] 1) div 3"
    using rows by (rule conjunct1)
  have each: "k < length (Posts twoPostPage) \<Longrightarrow>
      getRank twoPostSite (pageRows twoPostSite [] 1 ! (3 * k)) =
        Returns (Rank (Posts twoPostPage ! k), None)" for k
    using rows by blast
  have "(0 :: nat) < length (Posts twoPostPage)" "(1 :: nat) < length (Posts twoPostPage)"
    by (simp_all only: two)
  then show ?thesis using ok len each [of 0] each [of 1] by blast
qed

text \<open>
  C8, as stated, fails: a document whose two row groups show the ranks "2." and "1." is
  scraped without error, and the ranks of the posts are 2 and 1 in this order.
\<close>

theorem ranks_as_on_page_counterexample:
  "ScrapePage swappedSite 1 [] = (Returns (swappedPage, None), fetched [] 1)
   \<and> map Rank (Posts swappedPage) = [2, 1]
   \<and> \<not> sorted_wrt (<s) (map Rank (Posts swappedPage))"
proof -
  have ok: "ScrapePage swappedSite 1 [] = (Returns (swappedPage, None), fetched [] 1)"
    by code_simp
  have ranks: "map Rank (Posts swappedPage) = [2, 1]" by (simp add: swappedPage_def)
  have "\<not> (2 :: go_int) <s 1" by (simp add: word_sless_alt)
  then show ?thesis using ok ranks by simp
qed

section \<open>The loop over the pages\<close>

declare multLoop.simps [simp del]

lemma ScrapePage_events:
  assumes "\<not> pageNum <s 1"
  shows "snd (ScrapePage e pageNum tr) = fetched tr pageNum"
proof (cases "snd (LoadURL e tr (pageURL pageNum))")
  case None
  show ?thesis
    by (simp add: ScrapePage_loaded [OF assms None] split: run.splits prod.splits option.splits)
next
  case (Some er)
  show ?thesis by (simp add: ScrapePage_fetch_error [OF assms Some])
qed

lemma eventsAfter_0: "eventsAfter tr i 0 = tr"
  by (simp add: eventsAfter_def)

lemma eventsAfter_Suc: "eventsAfter tr i (Suc m) = fetched (eventsAfter tr i m) (i + of_nat m)"
  by (simp add: eventsAfter_def fetched_def)

lemma eventsAfter_shift: "eventsAfter (fetched tr i) (i + 1) m = eventsAfter tr i (Suc m)"
proof (induction m)
  case 0
  show ?case by (simp add: eventsAfter_def fetched_def)
next
  case (Suc m)
  have "eventsAfter (fetched tr i) (i + 1) (Suc m)
      = fetched (eventsAfter (fetched tr i) (i + 1) m) (i + 1 + of_nat m)"
    by (rule eventsAfter_Suc)
  also have "\<dots> = fetched (eventsAfter tr i (Suc m)) (i + of_nat (Suc m))"
    by (simp add: Suc.IH add.assoc)
  also have "\<dots> = eventsAfter tr i (Suc (Suc m))"
    by (rule eventsAfter_Suc [symmetric])
  finally show ?case .
qed

lemma multLoop_done:
  "\<not> i <=s endPage \<Longrightarrow> multLoop e i endPage pages tr = (Returns (pages, None), tr)"
  by (subst multLoop.simps) simp

lemma multLoop_ok_step:
  assumes "i <=s endPage" and "\<not> i <s 1" and "fst (ScrapePage e i tr) = Returns (page, None)"
  shows "multLoop e i endPage pages tr = multLoop e (i + 1) endPage (pages @ [page]) (fetched tr i)"
proof -
  have "ScrapePage e i tr = (Returns (page, None), fetched tr i)"
    using assms(3) ScrapePage_events [OF assms(2), of e tr] by (simp add: prod_eq_iff)
  then show ?thesis using assms(1) by (subst multLoop.simps) simp
qed

lemma multLoop_error_step:
  assumes "i <=s endPage" and "\<not> i <s 1" and "fst (ScrapePage e i tr) = Returns (page, Some err)"
  shows "multLoop e i endPage pages tr = (Returns (pages, Some err), fetched tr i)"
proof -
  have "ScrapePage e i tr = (Returns (page, Some err), fetched tr i)"
    using assms(3) ScrapePage_events [OF assms(2), of e tr] by (simp add: prod_eq_iff)
  then show ?thesis using assms(1) by (subst multLoop.simps) simp
qed

lemma sint_add_nat:
  fixes i :: go_int
  assumes "0 \<le> sint i" and "sint i + int j < 2 ^ 63"
  shows "sint (i + of_nat j) = sint i + int j"
proof -
  have j: "int j < 2 ^ 63" using assms by linarith
  have "sint (of_nat j :: go_int) = signed_take_bit 63 (int j)"
    by (simp add: signed_of_nat)
  also have "\<dots> = int j" using j by (intro signed_take_bit_int_eq_self) auto
  finally have sj: "sint (of_nat j :: go_int) = int j" .
  have "sint (i + of_nat j) = signed_take_bit 63 (sint i + sint (of_nat j :: go_int))"
    by (simp add: sint_word_ariths)
  also have "\<dots> = signed_take_bit 63 (sint i + int j)" by (simp only: sj)
  also have "\<dots> = sint i + int j"
    using assms by (intro signed_take_bit_int_eq_self) auto
  finally show ?thesis .
qed

lemma positive_sint: "\<not> (i :: go_int) <s 1 \<longleftrightarrow> 1 \<le> sint i"
  by (simp add: word_sless_alt not_less)

lemma multLoop_prefix:
  assumes "\<And>j. j < length ps \<Longrightarrow>
      fst (ScrapePage e (i + of_nat j) (eventsAfter tr i j)) = Returns (ps ! j, None)"
    and "1 \<le> sint i" and "sint i + int (length ps) \<le> sint endPage + 1"
  shows "multLoop e i endPage pages tr =
     multLoop e (i + of_nat (length ps)) endPage (pages @ ps) (eventsAfter tr i (length ps))"
  using assms
proof (induction ps arbitrary: i pages tr)
  case Nil
  then show ?case by (simp add: eventsAfter_0)
next
  case (Cons p ps)
  have hi: "sint endPage < 2 ^ 63" using sint_lt [of endPage] by simp
  have le: "i <=s endPage" using Cons.prems(3) by (simp add: word_sle_eq)
  have pos: "\<not> i <s 1" using Cons.prems(2) by (simp add: positive_sint)
  have first: "fst (ScrapePage e i tr) = Returns (p, None)"
    using Cons.prems(1) [of 0] by (simp add: eventsAfter_0)
  have step: "multLoop e i endPage pages tr =
      multLoop e (i + 1) endPage (pages @ [p]) (fetched tr i)"
    by (rule multLoop_ok_step [OF le pos first])
  have "multLoop e (i + 1) endPage (pages @ [p]) (fetched tr i) =
      multLoop e (i + 1 + of_nat (length ps)) endPage ((pages @ [p]) @ ps)
        (eventsAfter (fetched tr i) (i + 1) (length ps))"
  proof (cases ps)
    case Nil
    then show ?thesis by (simp add: eventsAfter_0)
  next
    case (Cons p' ps')
    then have nomax: "sint i \<noteq> 2 ^ 63 - 1" using Cons.prems(3) hi by simp
    have next_sint: "sint (i + 1) = sint i + 1" using sint_succ [OF nomax] .
    have rest: "fst (ScrapePage e (i + 1 + of_nat j) (eventsAfter (fetched tr i) (i + 1) j))
        = Returns (ps ! j, None)" if "j < length ps" for j
      using Cons.prems(1) [of "Suc j"] that by (simp add: eventsAfter_shift add.assoc)
    show ?thesis
      using Cons.prems(2) Cons.prems(3) next_sint
      by (intro Cons.IH rest) simp_all
  qed
  with step have "multLoop e i endPage pages tr =
      multLoop e (i + 1 + of_nat (length ps)) endPage ((pages @ [p]) @ ps)
        (eventsAfter (fetched tr i) (i + 1) (length ps))"
    by simp
  then show ?case by (simp add: eventsAfter_shift add.assoc)
qed

lemma ScrapePage_ok_Num:
  assumes "fst (ScrapePage e pageNum tr) = Returns (page, None)"
  shows "Num page = pageNum"
proof -
  have "ScrapePage e pageNum tr = (Returns (page, None), snd (ScrapePage e pageNum tr))"
    using assms by (simp add: prod_eq_iff)
  from ScrapePage_ok_posts [OF this] show ?thesis by simp
qed

lemma multLoop_invalid:
  assumes "i <s 1"
  shows "multLoop e i endPage pages tr =
     (if i <=s endPage
      then (Returns (pages, Some (ErrorsNew ''page number must be a positive integer'')), tr)
      else (Returns (pages, None), tr))"
  using assms by (subst multLoop.simps) (simp add: ScrapePage_def)

text \<open>
  C6. Let the range be valid and let page \<open>k = startPage + length ps\<close>, within the range,
  be the first for which \<open>ScrapePage\<close> returns an error (the request failed, or a row
  could not be extracted), the pages before it having given \<open>ps\<close>. Then
  \<open>ScrapeMultPages\<close> returns \<open>ps\<close>, whose page numbers ascend from \<open>startPage\<close>,
  together with that very error, and the events are those of the pages \<open>startPage\<close> to
  \<open>k\<close>: no later page was requested.
\<close>

theorem first_failure_keeps_earlier_pages:
  assumes "\<not> startPage <s 1"
    and "sint startPage + int (length ps) \<le> sint endPage"
    and "\<forall>j<length ps.
           fst (ScrapePage e (startPage + of_nat j) (eventsAfter tr startPage j))
             = Returns (ps ! j, None)"
    and "fst (ScrapePage e (startPage + of_nat (length ps))
                (eventsAfter tr startPage (length ps))) = Returns (pg, Some err)"
  shows "ScrapeMultPages e startPage endPage tr =
           (Returns (ps, Some err), eventsAfter tr startPage (Suc (length ps)))
     \<and> (\<forall>j<length ps. Num (ps ! j) = startPage + of_nat j)"
proof -
  let ?k = "startPage + of_nat (length ps)"
  have pos: "1 \<le> sint startPage" using assms(1) by (simp add: positive_sint)
  have hi: "sint endPage < 2 ^ 63" using sint_lt [of endPage] by simp
  have valid: "\<not> endPage <s 1" "\<not> endPage <s startPage"
    using pos assms(2) by (simp_all add: word_sless_alt)
  have k: "sint ?k = sint startPage + int (length ps)"
    using pos assms(2) hi by (intro sint_add_nat) simp_all
  have k_le: "?k <=s endPage" using k assms(2) by (simp add: word_sle_eq)
  have k_pos: "\<not> ?k <s 1" using k pos by (simp add: positive_sint)
  have "multLoop e startPage endPage [] tr =
      multLoop e ?k endPage ([] @ ps) (eventsAfter tr startPage (length ps))"
    using assms(2) assms(3) pos by (intro multLoop_prefix) simp_all
  also have "\<dots> = (Returns (ps, Some err), fetched (eventsAfter tr startPage (length ps)) ?k)"
    using multLoop_error_step [OF k_le k_pos assms(4)] by simp
  finally have "ScrapeMultPages e startPage endPage tr =
      (Returns (ps, Some err), eventsAfter tr startPage (Suc (length ps)))"
    using assms(1) valid by (simp add: ScrapeMultPages_def eventsAfter_Suc)
  moreover have "\<forall>j<length ps. Num (ps ! j) = startPage + of_nat j"
    using assms(3) ScrapePage_ok_Num by blast
  ultimately show ?thesis by simp
qed

theorem first_failure_keeps_earlier_pages_witness:
  "\<not> (1 :: go_int) <s 1
   \<and> sint (1 :: go_int) + int (length [twoPostPage]) \<le> sint (3 :: go_int)
   \<and> fst (ScrapePage twoPostSite (1 + of_nat 0) (eventsAfter [] 1 0)) =
        Returns ([twoPostPage] ! 0, None)
   \<and> fst (ScrapePage twoPostSite (1 + of_nat (length [twoPostPage]))
          (eventsAfter [] 1 (length [twoPostPage]))) =
        Returns (zeroPage, Some (LibError ''not found''))
   \<and> ScrapeMultPages twoPostSite 1 3 [] =
        (Returns ([twoPostPage], Some (LibError ''not found'')),
         [Fetch ''https://news.ycombinator.com/news?p=1'', Clock,
          Fetch ''https://news.ycombinator.com/news?p=2'', Clock])
   \<and> Num ([twoPostPage] ! 0) = 1 + of_nat 0"
proof -
  have h1: "\<not> (1 :: go_int) <s 1" by (simp add: word_sless_alt)
  have h2: "sint (1 :: go_int) + int (length [twoPostPage]) \<le> sint (3 :: go_int)" by simp
  have first: "fst (ScrapePage twoPostSite (1 + of_nat 0) (eventsAfter [] 1 0)) =
      Returns ([twoPostPage] ! 0, None)" by code_simp
  have h3: "\<forall>j<length [twoPostPage].
      fst (ScrapePage twoPostSite (1 + of_nat j) (eventsAfter [] 1 j)) =
        Returns ([twoPostPage] ! j, None)"
    using first by simp
  have h4: "fst (ScrapePage twoPostSite (1 + of_nat (length [twoPostPage]))
        (eventsAfter [] 1 (length [twoPostPage]))) =
      Returns (zeroPage, Some (LibError ''not found''))" by code_simp
  have ev: "eventsAfter [] (1 :: go_int) (Suc (length [twoPostPage])) =
      [Fetch ''https://news.ycombinator.com/news?p=1'', Clock,
       Fetch ''https://news.ycombinator.com/news?p=2'', Clock]" by code_simp
  note claim = first_failure_keeps_earlier_pages [OF h1 h2 h3 h4]
  have res: "ScrapeMultPages twoPostSite 1 3 [] =
      (Returns ([twoPostPage], Some (LibError ''not found'')),
       [Fetch ''https://news.ycombinator.com/news?p=1'', Clock,
        Fetch ''https://news.ycombinator.com/news?p=2'', Clock])"
    using claim [THEN conjunct1] by (simp only: ev)
  have num: "Num ([twoPostPage] ! 0) = 1 + of_nat 0"
    using claim [THEN conjunct2] by simp
  show ?thesis by (intro conjI; rule h1 h2 first h4 res num)
qed

section \<open>A range that scrapes without error\<close>

text \<open>
  When every page of a valid range is scraped without error and the end is below the
  largest \<open>int\<close>, the pages come back in ascending order, one for each page number, with
  no error. When the end is the largest \<open>int\<close>, the counter wraps after the last page
  and the pages come back with the error of a page number below 1.
\<close>

lemma ScrapeMultPages_all_ok:
  assumes "\<not> startPage <s 1" and "startPage <=s endPage"
    and "sint endPage \<noteq> 2 ^ 63 - 1"
    and "length ps = nat (sint endPage - sint startPage + 1)"
    and "\<forall>j<length ps.
           fst (ScrapePage e (startPage + of_nat j) (eventsAfter tr startPage j))
             = Returns (ps ! j, None)"
  shows "ScrapeMultPages e startPage endPage tr =
           (Returns (ps, None), eventsAfter tr startPage (length ps))
     \<and> (\<forall>j<length ps. Num (ps ! j) = startPage + of_nat j)"
proof -
  let ?k = "startPage + of_nat (length ps)"
  have pos: "1 \<le> sint startPage" using assms(1) by (simp add: positive_sint)
  have le: "sint startPage \<le> sint endPage" using assms(2) by (simp add: word_sle_eq)
  have hi: "sint endPage < 2 ^ 63 - 1" using sint_lt [of endPage] assms(3) by simp
  have len: "sint startPage + int (length ps) = sint endPage + 1"
    using le assms(4) by simp
  have valid: "\<not> endPage <s 1" "\<not> endPage <s startPage"
    using pos le by (simp_all add: word_sless_alt)
  have k: "sint ?k = sint startPage + int (length ps)"
    using pos len hi by (intro sint_add_nat) simp_all
  have k_gt: "\<not> ?k <=s endPage" using k len by (simp add: word_sle_eq)
  have "multLoop e startPage endPage [] tr =
      multLoop e ?k endPage ([] @ ps) (eventsAfter tr startPage (length ps))"
    using assms(5) pos len by (intro multLoop_prefix) simp_all
  also have "\<dots> = (Returns (ps, None), eventsAfter tr startPage (length ps))"
    using multLoop_done [OF k_gt] by simp
  finally have "ScrapeMultPages e startPage endPage tr =
      (Returns (ps, None), eventsAfter tr startPage (length ps))"
    using assms(1) valid by (simp add: ScrapeMultPages_def)
  moreover have "\<forall>j<length ps. Num (ps ! j) = startPage + of_nat j"
    using assms(5) ScrapePage_ok_Num by blast
  ultimately show ?thesis by simp
qed

lemma ScrapeMultPages_wraps:
  assumes "\<not> startPage <s 1" and "sint endPage = 2 ^ 63 - 1"
    and "length ps = nat (sint endPage - sint startPage + 1)"
    and "\<forall>j<length ps.
           fst (ScrapePage e (startPage + of_nat j) (eventsAfter tr startPage j))
             = Returns (ps ! j, None)"
  shows "ScrapeMultPages e startPage endPage tr =
           (Returns (ps, Some (ErrorsNew ''page number must be a positive integer'')),
            eventsAfter tr startPage (length ps))"
proof -
  let ?k = "startPage + of_nat (length ps)"
  have pos: "1 \<le> sint startPage" using assms(1) by (simp add: positive_sint)
  have le: "sint startPage \<le> sint endPage" using sint_lt [of startPage] assms(2) by simp
  have len: "sint startPage + int (length ps) = sint endPage + 1"
    using le assms(3) by simp
  have valid: "\<not> endPage <s 1" "\<not> endPage <s startPage"
    using pos le by (simp_all add: word_sless_alt)
  obtain m where m: "length ps = Suc m" using len le by (cases "length ps") auto
  have "sint (startPage + of_nat m) = sint startPage + int m"
    using pos len m assms(2) by (intro sint_add_nat) simp_all
  then have "sint (startPage + of_nat m) = 2 ^ 63 - 1" using len m assms(2) by simp
  from sint_succ_max [OF this] have k_neg: "?k <s 1" by (simp add: m ac_simps)
  then have k_le: "?k <=s endPage" using assms(2) by (simp add: word_sless_alt word_sle_eq)
  have "multLoop e startPage endPage [] tr =
      multLoop e ?k endPage ([] @ ps) (eventsAfter tr startPage (length ps))"
    using assms(4) pos len by (intro multLoop_prefix) simp_all
  also have "\<dots> = (Returns (ps, Some (ErrorsNew ''page number must be a positive integer'')),
      eventsAfter tr startPage (length ps))"
    by (simp add: multLoop_invalid [OF k_neg] k_le)
  finally show ?thesis using assms(1) valid by (simp add: ScrapeMultPages_def)
qed

text \<open>
  The largest page number on a site where that page loads: \<open>ScrapePage\<close> returns the page
  without error, and \<open>ScrapeMultPages\<close> returns the one page of the range together with
  the error "page number must be a positive integer".
\<close>

lemma last_page_wraps_around:
  "\<not> (9223372036854775807 :: go_int) <s 1
   \<and> (9223372036854775807 :: go_int) <=s 9223372036854775807
   \<and> ScrapePage lastPageSite 9223372036854775807 [] =
        (Returns (\<lparr>Posts = [], Num = 9223372036854775807, Retrieved = 1\<rparr>, None),
         [Fetch ''https://news.ycombinator.com/news?p=9223372036854775807'', Clock])
   \<and> ScrapeMultPages lastPageSite 9223372036854775807 9223372036854775807 [] =
        (Returns ([\<lparr>Posts = [], Num = 9223372036854775807, Retrieved = 1\<rparr>],
           Some (ErrorsNew ''page number must be a positive integer'')),
         [Fetch ''https://news.ycombinator.com/news?p=9223372036854775807'', Clock])"
proof -
  have a: "\<not> (9223372036854775807 :: go_int) <s 1" by (simp add: word_sless_alt)
  have b: "(9223372036854775807 :: go_int) <=s 9223372036854775807" by simp
  have c: "ScrapePage lastPageSite 9223372036854775807 [] =
        (Returns (\<lparr>Posts = [], Num = 9223372036854775807, Retrieved = 1\<rparr>, None),
         [Fetch ''https://news.ycombinator.com/news?p=9223372036854775807'', Clock])"
    by code_simp
  have ok: "fst (ScrapePage lastPageSite 9223372036854775807 []) =
      Returns (\<lparr>Posts = [], Num = 9223372036854775807, Retrieved = 1\<rparr>, None)"
    by (simp only: c fst_conv)
  have ev: "fetched [] (9223372036854775807 :: go_int) =
      [Fetch ''https://news.ycombinator.com/news?p=9223372036854775807'', Clock]"
    by code_simp
  have wrap: "(9223372036854775807 + 1 :: go_int) <s 1" by (simp add: word_sless_alt)
  have wrap_le: "(9223372036854775807 + 1 :: go_int) <=s 9223372036854775807"
    by (simp add: word_sle_eq)
  have "multLoop lastPageSite 9223372036854775807 9223372036854775807 [] [] =
      multLoop lastPageSite (9223372036854775807 + 1) 9223372036854775807
        ([] @ [\<lparr>Posts = [], Num = 9223372036854775807, Retrieved = 1\<rparr>])
        (fetched [] 9223372036854775807)"
    by (rule multLoop_ok_step [OF b a ok])
  also have "\<dots> =
      (Returns ([\<lparr>Posts = [], Num = 9223372036854775807, Retrieved = 1\<rparr>],
         Some (ErrorsNew ''page number must be a positive integer'')),
       [Fetch ''https://news.ycombinator.com/news?p=9223372036854775807'', Clock])"
    by (simp only: multLoop_invalid [OF wrap] wrap_le if_True ev append_Nil)
  finally have d: "ScrapeMultPages lastPageSite 9223372036854775807 9223372036854775807 [] =
        (Returns ([\<lparr>Posts = [], Num = 9223372036854775807, Retrieved = 1\<rparr>],
           Some (ErrorsNew ''page number must be a positive integer'')),
         [Fetch ''https://news.ycombinator.com/news?p=9223372036854775807'', Clock])"
    using a by (simp add: ScrapeMultPages_def)
  show ?thesis by (intro conjI; rule a b c d)
qed

text \<open>
  C9. For every valid range in which each page is scraped without error,
  \<open>ScrapeMultPages\<close> returns exactly \<open>endPage - startPage + 1\<close> pages, the \<open>j\<close>-th with the
  page number \<open>startPage + j\<close>, and the events are the requests for these pages, one
  after the other in ascending order. The error beside the pages is nil, except for
  \<open>endPage\<close> the largest \<open>int\<close>, where it is "page number must be a positive integer".
  Whenever \<open>ScrapePage\<close> returns a page without error, its \<open>Num\<close> is the page number
  asked for.
\<close>

theorem all_pages_in_ascending_order:
  assumes "\<not> startPage <s 1" and "startPage <=s endPage"
    and "length ps = nat (sint endPage - sint startPage + 1)"
    and "\<forall>j<length ps.
           fst (ScrapePage e (startPage + of_nat j) (eventsAfter tr startPage j))
             = Returns (ps ! j, None)"
  shows "ScrapeMultPages e startPage endPage tr =
           (Returns (ps, if sint endPage = 2 ^ 63 - 1
                         then Some (ErrorsNew ''page number must be a positive integer'')
                         else None),
            eventsAfter tr startPage (length ps))
     \<and> int (length ps) = sint endPage - sint startPage + 1
     \<and> (\<forall>j<length ps. Num (ps ! j) = startPage + of_nat j)
     \<and> (\<forall>p t page. fst (ScrapePage e p t) = Returns (page, None) \<longrightarrow> Num page = p)"
proof -
  have le: "sint startPage \<le> sint endPage" using assms(2) by (simp add: word_sle_eq)
  have len: "int (length ps) = sint endPage - sint startPage + 1"
    using le assms(3) by simp
  have nums: "\<forall>j<length ps. Num (ps ! j) = startPage + of_nat j"
    using assms(4) ScrapePage_ok_Num by blast
  have num: "\<forall>p t page. fst (ScrapePage e p t) = Returns (page, None) \<longrightarrow> Num page = p"
    using ScrapePage_ok_Num by blast
  have res: "ScrapeMultPages e startPage endPage tr =
      (Returns (ps, if sint endPage = 2 ^ 63 - 1
                    then Some (ErrorsNew ''page number must be a positive integer'')
                    else None),
       eventsAfter tr startPage (length ps))"
  proof (cases "sint endPage = 2 ^ 63 - 1")
    case True
    show ?thesis
      using ScrapeMultPages_wraps [OF assms(1) True assms(3) assms(4)] True by simp
  next
    case False
    show ?thesis
      using ScrapeMultPages_all_ok [OF assms(1) assms(2) False assms(3) assms(4)] False
      by simp
  qed
  show ?thesis using res len nums num by simp
qed

theorem all_pages_in_ascending_order_witness:
  "\<not> (1 :: go_int) <s 1 \<and> (1 :: go_int) <=s 3
   \<and> length threePages = nat (sint (3 :: go_int) - sint (1 :: go_int) + 1)
   \<and> fst (ScrapePage threePageSite (1 + of_nat 0) (eventsAfter [] 1 0)) =
        Returns (threePages ! 0, None)
   \<and> fst (ScrapePage threePageSite (1 + of_nat (Suc 0)) (eventsAfter [] 1 (Suc 0))) =
        Returns (threePages ! Suc 0, None)
   \<and> fst (ScrapePage threePageSite (1 + of_nat (Suc (Suc 0))) (eventsAfter [] 1 (Suc (Suc 0)))) =
        Returns (threePages ! Suc (Suc 0), None)
   \<and> ScrapeMultPages threePageSite 1 3 [] =
        (Returns (threePages, None),
         [Fetch ''https://news.ycombinator.com/news?p=1'', Clock,
          Fetch ''https://news.ycombinator.com/news?p=2'', Clock,
          Fetch ''https://news.ycombinator.com/news?p=3'', Clock])
   \<and> length threePages = 3
   \<and> map Num threePages = [1, 2, 3]"
proof -
  have h1: "\<not> (1 :: go_int) <s 1" by (simp add: word_sless_alt)
  have h2: "(1 :: go_int) <=s 3" by (simp add: word_sle_eq)
  have len3: "length threePages = 3" by (simp add: threePages_def)
  have h3: "length threePages = nat (sint (3 :: go_int) - sint (1 :: go_int) + 1)"
    by (simp add: len3)
  have f0: "fst (ScrapePage threePageSite (1 + of_nat 0) (eventsAfter [] 1 0)) =
      Returns (threePages ! 0, None)" by code_simp
  have f1: "fst (ScrapePage threePageSite (1 + of_nat (Suc 0)) (eventsAfter [] 1 (Suc 0))) =
      Returns (threePages ! Suc 0, None)" by code_simp
  have f2: "fst (ScrapePage threePageSite (1 + of_nat (Suc (Suc 0)))
        (eventsAfter [] 1 (Suc (Suc 0)))) =
      Returns (threePages ! Suc (Suc 0), None)" by code_simp
  have h4: "\<forall>j<length threePages.
      fst (ScrapePage threePageSite (1 + of_nat j) (eventsAfter [] 1 j)) =
        Returns (threePages ! j, None)"
  proof (intro allI impI)
    fix j assume "j < length threePages"
    then have "j = 0 \<or> j = Suc 0 \<or> j = Suc (Suc 0)" using len3 by auto
    then show "fst (ScrapePage threePageSite (1 + of_nat j) (eventsAfter [] 1 j)) =
        Returns (threePages ! j, None)"
      using f0 f1 f2 by (elim disjE) (simp_all only:)
  qed
  have ev: "eventsAfter [] (1 :: go_int) (length threePages) =
      [Fetch ''https://news.ycombinator.com/news?p=1'', Clock,
       Fetch ''https://news.ycombinator.com/news?p=2'', Clock,
       Fetch ''https://news.ycombinator.com/news?p=3'', Clock]" by code_simp
  have inner: "sint (3 :: go_int) \<noteq> 2 ^ 63 - 1" by simp
  have res: "ScrapeMultPages threePageSite 1 3 [] =
      (Returns (threePages, None),
       [Fetch ''https://news.ycombinator.com/news?p=1'', Clock,
        Fetch ''https://news.ycombinator.com/news?p=2'', Clock,
        Fetch ''https://news.ycombinator.com/news?p=3'', Clock])"
    using all_pages_in_ascending_order [OF h1 h2 h3 h4, THEN conjunct1]
    by (simp only: ev inner if_False)
  have nums: "map Num threePages = [1, 2, 3]" by (simp add: threePages_def)
  show ?thesis by (intro conjI; rule h1 h2 h3 f0 f1 f2 res len3 nums)
qed

section \<open>Decimal numerals\<close>

lemma digit_val_bounds: "is_digit c \<Longrightarrow> 0 \<le> digit_val c \<and> digit_val c \<le> 9"
  by (simp add: is_digit_def digit_val_def)

lemma foldl_digits_mono:
  assumes "list_all is_digit cs" and "0 \<le> n"
  shows "n \<le> foldl (\<lambda>n c. n * 10 + digit_val c) n cs"
  using assms
proof (induction cs arbitrary: n)
  case Nil
  show ?case by simp
next
  case (Cons c cs)
  have d: "0 \<le> digit_val c" using Cons.prems(1) digit_val_bounds by simp
  have "n \<le> n * 10 + digit_val c" using d Cons.prems(2) by simp
  also have "\<dots> \<le> foldl (\<lambda>n c. n * 10 + digit_val c) (n * 10 + digit_val c) cs"
    using Cons.prems d by (intro Cons.IH) simp_all
  finally show ?case by simp
qed

lemma parseUint_digits:
  assumes "list_all is_digit cs" and "0 \<le> n"
  shows "parseUint cs n =
     (if foldl (\<lambda>n c. n * 10 + digit_val c) n cs < 2 ^ 64 \<or> cs = []
      then (foldl (\<lambda>n c. n * 10 + digit_val c) n cs, None)
      else (2 ^ 64 - 1, Some ErrRange))"
  using assms
proof (induction cs arbitrary: n)
  case Nil
  show ?case by simp
next
  case (Cons c cs)
  let ?n1 = "n * 10 + digit_val c"
  have c: "is_digit c" and cs: "list_all is_digit cs" using Cons.prems(1) by simp_all
  have n1: "0 \<le> ?n1" using digit_val_bounds [OF c] Cons.prems(2) by simp
  have mono: "?n1 \<le> foldl (\<lambda>n c. n * 10 + digit_val c) ?n1 cs"
    by (rule foldl_digits_mono [OF cs n1])
  show ?case
  proof (cases "2 ^ 64 \<le> ?n1")
    case True
    then show ?thesis using c mono by (simp add: Let_def)
  next
    case False
    then show ?thesis using c Cons.IH [OF cs n1] by (auto simp: Let_def)
  qed
qed

lemma digit_not_sign: "is_digit c \<Longrightarrow> c \<noteq> CHR ''+'' \<and> c \<noteq> CHR ''-''"
  by (auto simp: is_digit_def)

lemma Atoi_digits:
  assumes "list_all is_digit ds" and "ds \<noteq> []"
  shows "Atoi ds =
     (if digitsValue ds < 2 ^ 63 then (of_int (digitsValue ds), None)
      else (of_int (2 ^ 63 - 1), Some (rangeError ds)))"
proof -
  obtain c cs where ds: "ds = c # cs" using assms(2) by (cases ds) auto
  have c: "is_digit c" using assms(1) ds by simp
  have body: "(if hd ds = CHR ''+'' \<or> hd ds = CHR ''-'' then tl ds else ds) = ds"
    using digit_not_sign [OF c] ds by simp
  have neg: "hd ds \<noteq> CHR ''-''" using digit_not_sign [OF c] ds by simp
  have pu: "parseUint ds 0 =
     (if digitsValue ds < 2 ^ 64 then (digitsValue ds, None) else (2 ^ 64 - 1, Some ErrRange))"
    using parseUint_digits [OF assms(1), of 0] assms(2) by (simp add: digitsValue_def)
  show ?thesis
    unfolding Atoi_def Let_def body
    using assms(2) neg by (simp add: pu)
qed

lemma parseUint_non_digit:
  assumes "\<not> list_all is_digit cs"
  shows "snd (parseUint cs n) \<noteq> None"
  using assms by (induction cs arbitrary: n) (auto simp: Let_def)

lemma parseUint_range_value:
  "snd (parseUint cs n) = Some ErrRange \<Longrightarrow> fst (parseUint cs n) = 2 ^ 64 - 1"
  by (induction cs arbitrary: n) (auto simp: Let_def split: if_splits)

lemma Atoi_non_numeric:
  assumes "\<not> list_all is_digit (signless s)"
  shows "snd (Atoi s) \<noteq> None"
proof (cases "s = [] \<or> signless s = []")
  case True
  then show ?thesis using assms by (auto simp: signless_def)
next
  case False
  then have s: "s \<noteq> []" and b: "signless s \<noteq> []" by simp_all
  obtain un er where pu: "parseUint (signless s) 0 = (un, er)" by (cases "parseUint (signless s) 0")
  have er: "er \<noteq> None" using parseUint_non_digit [OF assms, of 0] pu by simp
  then obtain k where k: "er = Some k" by auto
  have body: "(if hd s = CHR ''+'' \<or> hd s = CHR ''-'' then tl s else s) = signless s"
    using s by (simp add: signless_def)
  show ?thesis
  proof (cases k)
    case ErrSyntax
    show ?thesis unfolding Atoi_def Let_def body using s b pu k ErrSyntax by simp
  next
    case ErrRange
    have "un = 2 ^ 64 - 1" using parseUint_range_value [of "signless s" 0] pu k ErrRange by simp
    then show ?thesis unfolding Atoi_def Let_def body using s b pu k ErrRange by simp
  qed
qed

lemma Atoi_not_numeric:
  assumes "\<not> numeric s"
  shows "snd (Atoi s) \<noteq> None"
proof (cases "signless s = []")
  case True
  then show ?thesis by (cases s) (auto simp: Atoi_def signless_def Let_def split: if_splits)
next
  case False
  then have "\<not> list_all is_digit (signless s)" using assms by (simp add: numeric_def)
  then show ?thesis by (rule Atoi_non_numeric)
qed

lemma Atoi_numeric:
  assumes "numeric s"
  shows "Atoi s =
     (if hd s = CHR ''-''
      then (if digitsValue (signless s) \<le> 2 ^ 63
            then (- of_int (digitsValue (signless s)), None)
            else (- of_int (2 ^ 63), Some (rangeError s)))
      else (if digitsValue (signless s) < 2 ^ 63
            then (of_int (digitsValue (signless s)), None)
            else (of_int (2 ^ 63 - 1), Some (rangeError s))))"
proof -
  have b: "signless s \<noteq> []" and d: "list_all is_digit (signless s)"
    using assms by (simp_all add: numeric_def)
  have s: "s \<noteq> []" using b by (auto simp: signless_def)
  have body: "(if hd s = CHR ''+'' \<or> hd s = CHR ''-'' then tl s else s) = signless s"
    using s by (simp add: signless_def)
  have pu: "parseUint (signless s) 0 =
     (if digitsValue (signless s) < 2 ^ 64 then (digitsValue (signless s), None)
      else (2 ^ 64 - 1, Some ErrRange))"
    using parseUint_digits [OF d, of 0] b by (simp add: digitsValue_def)
  show ?thesis
    unfolding Atoi_def Let_def body
    using s b by (simp add: pu)
qed

section \<open>Comment counts\<close>

lemma commentsLoop_discuss:
  "list_ex (\<lambda>a. Contains (InnerText e a) ''discuss'') qs \<Longrightarrow>
     commentsLoop e qs acc = Inl (0, None)"
  by (induction qs arbitrary: acc) (auto simp: Let_def)

lemma commentsLoop_no_discuss:
  assumes "\<not> list_ex (\<lambda>a. Contains (InnerText e a) ''discuss'') qs"
  shows "commentsLoop e qs acc =
     Inr (if filter (\<lambda>a. Contains (InnerText e a) ''comment'') qs = [] then acc
          else stripNonDigits
                 (InnerText e (last (filter (\<lambda>a. Contains (InnerText e a) ''comment'') qs))))"
  using assms by (induction qs arbitrary: acc) (auto simp: Let_def)

text \<open>
  C1, as the code has it. If the text of some anchor contains "discuss", the count is 0
  without error. Otherwise, if some anchor's text contains "comment", the text of the last
  such anchor is taken and everything but its digits is deleted: when digits remain they
  are parsed, giving their number without error when it is below \<open>2^63\<close> ("42 comments"
  gives 42, "1 comment" gives 1) and the range error of \<open>Atoi\<close> otherwise; when no digit
  remains the result is the "page formatted unexpectedly" error. That error is also the
  result when no anchor contains either word.
\<close>

theorem comment_count_of_last_matching_anchor:
  "(hasDiscuss e node \<longrightarrow> getNumComments e node = (0, None))
   \<and> (\<not> hasDiscuss e node \<and> commentAnchors e node \<noteq> [] \<and> commentDigits e node \<noteq> []
        \<and> digitsValue (commentDigits e node) < 2 ^ 63 \<longrightarrow>
        getNumComments e node = (of_int (digitsValue (commentDigits e node)), None))
   \<and> (\<not> hasDiscuss e node \<and> commentAnchors e node \<noteq> [] \<and> commentDigits e node \<noteq> []
        \<and> 2 ^ 63 \<le> digitsValue (commentDigits e node) \<longrightarrow>
        snd (getNumComments e node) = Some (rangeError (commentDigits e node)))
   \<and> (\<not> hasDiscuss e node \<and> commentAnchors e node \<noteq> [] \<and> commentDigits e node = [] \<longrightarrow>
        getNumComments e node = (0, Some (ErrorsNew errorMsg)))
   \<and> (\<not> hasDiscuss e node \<and> commentAnchors e node = [] \<longrightarrow>
        getNumComments e node = (0, Some (ErrorsNew errorMsg)))"
proof -
  have digits: "list_all is_digit (commentDigits e node)"
    by (simp add: commentDigits_def stripNonDigits_def list_all_iff)
  have yes: "getNumComments e node = (0, None)" if "hasDiscuss e node"
    using that by (simp add: getNumComments_def hasDiscuss_def commentsLoop_discuss)
  have none: "getNumComments e node = (0, Some (ErrorsNew errorMsg))"
    if "\<not> hasDiscuss e node" "commentAnchors e node = []"
    using that
    by (simp add: getNumComments_def hasDiscuss_def commentAnchors_def commentsLoop_no_discuss)
  have some: "getNumComments e node =
      (if commentDigits e node = [] then (0, Some (ErrorsNew errorMsg))
       else Atoi (commentDigits e node))"
    if "\<not> hasDiscuss e node" "commentAnchors e node \<noteq> []"
    using that
    by (simp add: getNumComments_def hasDiscuss_def commentAnchors_def commentDigits_def
        commentsLoop_no_discuss split: prod.splits option.splits)
  show ?thesis
    using yes none some Atoi_digits [OF digits]
    by (simp add: not_less)
qed

theorem comment_count_of_last_matching_anchor_witness:
  "hasDiscuss (site []) (subtextCell ''10 points'' [''pg'', ''discuss''])
   \<and> getNumComments (site []) (subtextCell ''10 points'' [''pg'', ''discuss'']) = (0, None)
   \<and> \<not> hasDiscuss (site []) (subtextCell ''10 points'' [''pg'', ''hide'', ''42 comments''])
   \<and> commentAnchors (site []) (subtextCell ''10 points'' [''pg'', ''hide'', ''42 comments'']) \<noteq> []
   \<and> commentDigits (site []) (subtextCell ''10 points'' [''pg'', ''hide'', ''42 comments'']) = ''42''
   \<and> digitsValue ''42'' = 42
   \<and> getNumComments (site []) (subtextCell ''10 points'' [''pg'', ''hide'', ''42 comments'']) =
        (42, None)
   \<and> commentDigits (site []) (subtextCell ''10 points'' [''1 comment'']) = ''1''
   \<and> getNumComments (site []) (subtextCell ''10 points'' [''1 comment'']) = (1, None)
   \<and> commentDigits (site []) (subtextCell ''10 points'' [''99999999999999999999 comments'']) =
        ''99999999999999999999''
   \<and> snd (getNumComments (site []) (subtextCell ''10 points'' [''99999999999999999999 comments''])) =
        Some (rangeError ''99999999999999999999'')
   \<and> commentAnchors (site []) (subtextCell ''10 points'' [''comments'']) \<noteq> []
   \<and> commentDigits (site []) (subtextCell ''10 points'' [''comments'']) = []
   \<and> getNumComments (site []) (subtextCell ''10 points'' [''comments'']) =
        (0, Some (ErrorsNew errorMsg))
   \<and> \<not> hasDiscuss (site []) (subtextCell ''10 points'' [''pg'', ''hide''])
   \<and> commentAnchors (site []) (subtextCell ''10 points'' [''pg'', ''hide'']) = []
   \<and> getNumComments (site []) (subtextCell ''10 points'' [''pg'', ''hide'']) =
        (0, Some (ErrorsNew errorMsg))"
proof -
  note claim = comment_count_of_last_matching_anchor
  let ?discuss = "subtextCell ''10 points'' [''pg'', ''discuss'']"
  let ?many = "subtextCell ''10 points'' [''pg'', ''hide'', ''42 comments'']"
  let ?one = "subtextCell ''10 points'' [''1 comment'']"
  let ?huge = "subtextCell ''10 points'' [''99999999999999999999 comments'']"
  let ?bare = "subtextCell ''10 points'' [''comments'']"
  let ?none = "subtextCell ''10 points'' [''pg'', ''hide'']"
  have d1: "hasDiscuss (site []) ?discuss" by code_simp
  have r1: "getNumComments (site []) ?discuss = (0, None)"
    by (rule claim [where e = "site []" and node = ?discuss, THEN conjunct1, THEN mp]) (rule d1)
  have d2: "\<not> hasDiscuss (site []) ?many" by code_simp
  have a2: "commentAnchors (site []) ?many \<noteq> []" by code_simp
  have g2: "commentDigits (site []) ?many = ''42''" by code_simp
  have v2: "digitsValue ''42'' = 42" by code_simp
  have "getNumComments (site []) ?many =
      (of_int (digitsValue (commentDigits (site []) ?many)), None)"
    by (rule claim [where e = "site []" and node = ?many, THEN conjunct2, THEN conjunct1, THEN mp])
      (simp add: d2 a2 g2 v2)
  then have r2: "getNumComments (site []) ?many = (42, None)" by (simp add: g2 v2)
  have d3: "\<not> hasDiscuss (site []) ?one" by code_simp
  have a3: "commentAnchors (site []) ?one \<noteq> []" by code_simp
  have g3: "commentDigits (site []) ?one = ''1''" by code_simp
  have v3: "digitsValue ''1'' = 1" by code_simp
  have "getNumComments (site []) ?one =
      (of_int (digitsValue (commentDigits (site []) ?one)), None)"
    by (rule claim [where e = "site []" and node = ?one, THEN conjunct2, THEN conjunct1, THEN mp])
      (simp add: d3 a3 g3 v3)
  then have r3: "getNumComments (site []) ?one = (1, None)" by (simp add: g3 v3)
  have d4: "\<not> hasDiscuss (site []) ?huge" by code_simp
  have a4: "commentAnchors (site []) ?huge \<noteq> []" by code_simp
  have g4: "commentDigits (site []) ?huge = ''99999999999999999999''" by code_simp
  have v4: "digitsValue ''99999999999999999999'' = 99999999999999999999" by code_simp
  have "snd (getNumComments (site []) ?huge) = Some (rangeError (commentDigits (site []) ?huge))"
    by (rule claim [where e = "site []" and node = ?huge,
          THEN conjunct2, THEN conjunct2, THEN conjunct1, THEN mp])
      (simp add: d4 a4 g4 v4)
  then have r4: "snd (getNumComments (site []) ?huge) =
      Some (rangeError ''99999999999999999999'')" by (simp only: g4)
  have d5: "\<not> hasDiscuss (site []) ?bare" by code_simp
  have a5: "commentAnchors (site []) ?bare \<noteq> []" by code_simp
  have g5: "commentDigits (site []) ?bare = []" by code_simp
  have r5: "getNumComments (site []) ?bare = (0, Some (ErrorsNew errorMsg))"
    by (rule claim [where e = "site []" and node = ?bare,
          THEN conjunct2, THEN conjunct2, THEN conjunct2, THEN conjunct1, THEN mp])
      (intro conjI d5 a5 g5)
  have d6: "\<not> hasDiscuss (site []) ?none" by code_simp
  have a6: "commentAnchors (site []) ?none = []" by code_simp
  have r6: "getNumComments (site []) ?none = (0, Some (ErrorsNew errorMsg))"
    by (rule claim [where e = "site []" and node = ?none,
          THEN conjunct2, THEN conjunct2, THEN conjunct2, THEN conjunct2, THEN mp])
      (intro conjI d6 a6)
  show ?thesis
    by (intro conjI; rule d1 r1 d2 a2 g2 v2 r2 g3 r3 g4 r4 a5 g5 r5 d6 a6 r6)
qed

text \<open>
  C1, as stated, fails: for the single anchor text "comments", which contains "comment"
  and not "discuss", no integer is returned but the "page formatted unexpectedly" error.
\<close>

theorem comment_without_digits_counterexample:
  "Contains ''comments'' ''comment''
   \<and> \<not> Contains ''comments'' ''discuss''
   \<and> map (InnerText (site [])) (Find (site []) (subtextCell ''10 points'' [''comments'']) ''/a]'')
        = [''comments'']
   \<and> getNumComments (site []) (subtextCell ''10 points'' [''comments'']) =
        (0, Some (ErrorsNew errorMsg))"
proof -
  have a: "Contains ''comments'' ''comment''" by code_simp
  have b: "\<not> Contains ''comments'' ''discuss''" by code_simp
  have c: "map (InnerText (site [])) (Find (site []) (subtextCell ''10 points'' [''comments'']) ''/a]'')
        = [''comments'']" by code_simp
  have d: "getNumComments (site []) (subtextCell ''10 points'' [''comments'']) =
        (0, Some (ErrorsNew errorMsg))" by code_simp
  show ?thesis by (intro conjI; rule a b c d)
qed

section \<open>Rank text\<close>

text \<open>
  C4, as the code has it. Without exactly one rank-marked span the result is the "page
  formatted unexpectedly" error. Otherwise the last byte of the span's non-empty text is
  dropped, whatever it is, and the rest goes to \<open>Atoi\<close>. A rest that is an optional sign
  followed by at least one decimal digit gives the number it denotes ("7." gives 7), or
  the range error of \<open>Atoi\<close> when that number is no \<open>int\<close>. Every other rest, be it empty,
  a sign alone or with a byte that is no digit, gives an error. The dropped byte is not
  compared with a period.
\<close>

theorem rank_drops_last_byte:
  "(length (rankSpans e node) \<noteq> 1 \<longrightarrow>
      getRank e node = Returns (0, Some (ErrorsNew errorMsg)))
   \<and> (length (rankSpans e node) = 1 \<and> InnerText e (rankSpans e node ! 0) = body @ [c]
        \<and> numeric body \<and> hd body \<noteq> CHR ''-'' \<and> digitsValue (signless body) < 2 ^ 63 \<longrightarrow>
      getRank e node = Returns (of_int (digitsValue (signless body)), None))
   \<and> (length (rankSpans e node) = 1 \<and> InnerText e (rankSpans e node ! 0) = body @ [c]
        \<and> numeric body \<and> hd body = CHR ''-'' \<and> digitsValue (signless body) \<le> 2 ^ 63 \<longrightarrow>
      getRank e node = Returns (- of_int (digitsValue (signless body)), None))
   \<and> (length (rankSpans e node) = 1 \<and> InnerText e (rankSpans e node ! 0) = body @ [c]
        \<and> numeric body \<and> hd body \<noteq> CHR ''-'' \<and> 2 ^ 63 \<le> digitsValue (signless body) \<longrightarrow>
      getRank e node = Returns (of_int (2 ^ 63 - 1), Some (rangeError body)))
   \<and> (length (rankSpans e node) = 1 \<and> InnerText e (rankSpans e node ! 0) = body @ [c]
        \<and> numeric body \<and> hd body = CHR ''-'' \<and> 2 ^ 63 < digitsValue (signless body) \<longrightarrow>
      getRank e node = Returns (- of_int (2 ^ 63), Some (rangeError body)))
   \<and> (length (rankSpans e node) = 1 \<and> InnerText e (rankSpans e node ! 0) = body @ [c]
        \<and> \<not> numeric body \<longrightarrow>
      (\<exists>v err. getRank e node = Returns (v, Some err)))"
proof -
  have missing: "getRank e node = Returns (0, Some (ErrorsNew errorMsg))"
    if "length (rankSpans e node) \<noteq> 1"
    using that by (simp add: getRank_def rankSpans_def)
  have parsed: "getRank e node =
      (case Atoi body of (rank, Some err) \<Rightarrow> Returns (rank, Some err)
                       | (rank, None) \<Rightarrow> Returns (rank, None))"
    if "length (rankSpans e node) = 1" "InnerText e (rankSpans e node ! 0) = body @ [c]"
    using that by (simp add: getRank_def rankSpans_def Let_def)
  have num: "getRank e node =
      (case (if hd body = CHR ''-''
             then (if digitsValue (signless body) \<le> 2 ^ 63
                   then (- of_int (digitsValue (signless body)), None)
                   else (- of_int (2 ^ 63), Some (rangeError body)))
             else (if digitsValue (signless body) < 2 ^ 63
                   then (of_int (digitsValue (signless body)), None)
                   else (of_int (2 ^ 63 - 1), Some (rangeError body))))
       of (rank, Some err) \<Rightarrow> Returns (rank, Some err)
        | (rank, None) \<Rightarrow> Returns (rank, None))"
    if "length (rankSpans e node) = 1" "InnerText e (rankSpans e node ! 0) = body @ [c]"
      "numeric body"
    using parsed [OF that(1) that(2)] Atoi_numeric [OF that(3)] by simp
  have other: "\<exists>v err. getRank e node = Returns (v, Some err)"
    if "length (rankSpans e node) = 1" "InnerText e (rankSpans e node ! 0) = body @ [c]"
      "\<not> numeric body"
  proof -
    obtain v er where at: "Atoi body = (v, er)" by (cases "Atoi body")
    with Atoi_not_numeric [OF that(3)] obtain err where "er = Some err" by auto
    with at parsed [OF that(1) that(2)] show ?thesis by simp
  qed
  show ?thesis
  proof (intro conjI impI)
    assume "length (rankSpans e node) \<noteq> 1"
    then show "getRank e node = Returns (0, Some (ErrorsNew errorMsg))" by (rule missing)
  next
    assume "length (rankSpans e node) = 1 \<and> InnerText e (rankSpans e node ! 0) = body @ [c]
        \<and> numeric body \<and> hd body \<noteq> CHR ''-'' \<and> digitsValue (signless body) < 2 ^ 63"
    then show "getRank e node = Returns (of_int (digitsValue (signless body)), None)"
      using num by simp
  next
    assume "length (rankSpans e node) = 1 \<and> InnerText e (rankSpans e node ! 0) = body @ [c]
        \<and> numeric body \<and> hd body = CHR ''-'' \<and> digitsValue (signless body) \<le> 2 ^ 63"
    then show "getRank e node = Returns (- of_int (digitsValue (signless body)), None)"
      using num by simp
  next
    assume "length (rankSpans e node) = 1 \<and> InnerText e (rankSpans e node ! 0) = body @ [c]
        \<and> numeric body \<and> hd body \<noteq> CHR ''-'' \<and> 2 ^ 63 \<le> digitsValue (signless body)"
    then show "getRank e node = Returns (of_int (2 ^ 63 - 1), Some (rangeError body))"
      using num by simp
  next
    assume "length (rankSpans e node) = 1 \<and> InnerText e (rankSpans e node ! 0) = body @ [c]
        \<and> numeric body \<and> hd body = CHR ''-'' \<and> 2 ^ 63 < digitsValue (signless body)"
    then show "getRank e node = Returns (- of_int (2 ^ 63), Some (rangeError body))"
      using num by simp
  next
    assume "length (rankSpans e node) = 1 \<and> InnerText e (rankSpans e node ! 0) = body @ [c]
        \<and> \<not> numeric body"
    then show "\<exists>v err. getRank e node = Returns (v, Some err)"
      using other by simp
  qed
qed

theorem rank_drops_last_byte_witness:
  "length (rankSpans (site []) emptyNode) \<noteq> 1
   \<and> getRank (site []) emptyNode = Returns (0, Some (ErrorsNew errorMsg))
   \<and> length (rankSpans (site []) (rankRow ''7.'')) = 1
   \<and> InnerText (site []) (rankSpans (site []) (rankRow ''7.'') ! 0) = ''7'' @ [CHR ''.'']
   \<and> numeric ''7'' \<and> hd ''7'' \<noteq> CHR ''-'' \<and> digitsValue (signless ''7'') = 7
   \<and> getRank (site []) (rankRow ''7.'') = Returns (7, None)
   \<and> InnerText (site []) (rankSpans (site []) (rankRow ''-3.'') ! 0) = ''-3'' @ [CHR ''.'']
   \<and> numeric ''-3'' \<and> hd ''-3'' = CHR ''-'' \<and> digitsValue (signless ''-3'') = 3
   \<and> getRank (site []) (rankRow ''-3.'') = Returns (- 3, None)
   \<and> InnerText (site []) (rankSpans (site []) (rankRow ''99999999999999999999.'') ! 0)
        = ''99999999999999999999'' @ [CHR ''.'']
   \<and> numeric ''99999999999999999999''
   \<and> digitsValue (signless ''99999999999999999999'') = 99999999999999999999
   \<and> getRank (site []) (rankRow ''99999999999999999999.'') =
        Returns (of_int (2 ^ 63 - 1), Some (rangeError ''99999999999999999999''))
   \<and> InnerText (site []) (rankSpans (site []) (rankRow ''x.'') ! 0) = ''x'' @ [CHR ''.'']
   \<and> \<not> numeric ''x''
   \<and> getRank (site []) (rankRow ''x.'') = Returns (0, Some (syntaxError ''x''))
   \<and> InnerText (site []) (rankSpans (site []) (rankRow ''-.'') ! 0) = ''-'' @ [CHR ''.'']
   \<and> \<not> numeric ''-''
   \<and> getRank (site []) (rankRow ''-.'') = Returns (0, Some (syntaxError ''-''))
   \<and> InnerText (site []) (rankSpans (site []) (rankRow ''.'') ! 0) = [] @ [CHR ''.'']
   \<and> \<not> numeric []
   \<and> getRank (site []) (rankRow ''.'') = Returns (0, Some (syntaxError []))"
proof -
  note claim = rank_drops_last_byte
  have n1: "length (rankSpans (site []) emptyNode) \<noteq> 1" by code_simp
  have r1: "getRank (site []) emptyNode = Returns (0, Some (ErrorsNew errorMsg))"
    by (rule claim [where e = "site []" and node = emptyNode, THEN conjunct1, THEN mp]) (rule n1)
  have len: "length (rankSpans (site []) (rankRow t)) = 1" for t
    by (simp add: rankSpans_def rankRow_def titleRow_def site_def siteFind_def)
  have rtext: "InnerText (site []) (rankSpans (site []) (rankRow t) ! 0) = t" for t
    by (simp add: rankSpans_def rankRow_def titleRow_def site_def siteFind_def textNode_def)
  have t2: "InnerText (site []) (rankSpans (site []) (rankRow ''7.'') ! 0) = ''7'' @ [CHR ''.'']"
    by (simp add: rtext)
  have m2: "numeric ''7''" by code_simp
  have s2: "hd ''7'' \<noteq> CHR ''-''" by simp
  have v2: "digitsValue (signless ''7'') = 7" by code_simp
  have "getRank (site []) (rankRow ''7.'') = Returns (of_int (digitsValue (signless ''7'')), None)"
    by (rule claim [where e = "site []" and node = "rankRow ''7.''" and body = "''7''"
          and c = "CHR ''.''", THEN conjunct2, THEN conjunct1, THEN mp])
      (simp only: len t2 m2 s2 v2, simp)
  then have r2: "getRank (site []) (rankRow ''7.'') = Returns (7, None)" by (simp only: v2) simp
  have t3: "InnerText (site []) (rankSpans (site []) (rankRow ''-3.'') ! 0) = ''-3'' @ [CHR ''.'']"
    by (simp add: rtext)
  have m3: "numeric ''-3''" by code_simp
  have s3: "hd ''-3'' = CHR ''-''" by simp
  have v3: "digitsValue (signless ''-3'') = 3" by code_simp
  have "getRank (site []) (rankRow ''-3.'') =
      Returns (- of_int (digitsValue (signless ''-3'')), None)"
    by (rule claim [where e = "site []" and node = "rankRow ''-3.''" and body = "''-3''"
          and c = "CHR ''.''", THEN conjunct2, THEN conjunct2, THEN conjunct1, THEN mp])
      (simp only: len t3 m3 s3 v3, simp)
  then have r3: "getRank (site []) (rankRow ''-3.'') = Returns (- 3, None)"
    by (simp only: v3) simp
  have t4: "InnerText (site []) (rankSpans (site []) (rankRow ''99999999999999999999.'') ! 0)
      = ''99999999999999999999'' @ [CHR ''.'']" by (simp add: rtext)
  have m4: "numeric ''99999999999999999999''" by code_simp
  have s4: "hd ''99999999999999999999'' \<noteq> CHR ''-''" by simp
  have v4: "digitsValue (signless ''99999999999999999999'') = 99999999999999999999"
    by code_simp
  have r4: "getRank (site []) (rankRow ''99999999999999999999.'') =
      Returns (of_int (2 ^ 63 - 1), Some (rangeError ''99999999999999999999''))"
    by (rule claim [where e = "site []" and node = "rankRow ''99999999999999999999.''"
          and body = "''99999999999999999999''" and c = "CHR ''.''",
          THEN conjunct2, THEN conjunct2, THEN conjunct2, THEN conjunct1, THEN mp])
      (simp only: len t4 m4 s4 v4, simp)
  have t5: "InnerText (site []) (rankSpans (site []) (rankRow ''x.'') ! 0) = ''x'' @ [CHR ''.'']"
    by (simp add: rtext)
  have m5: "\<not> numeric ''x''" by code_simp
  have "\<exists>v err. getRank (site []) (rankRow ''x.'') = Returns (v, Some err)"
    by (rule claim [where e = "site []" and node = "rankRow ''x.''" and body = "''x''"
          and c = "CHR ''.''", THEN conjunct2, THEN conjunct2, THEN conjunct2, THEN conjunct2,
          THEN conjunct2, THEN mp])
      (intro conjI len t5 m5)
  have r5: "getRank (site []) (rankRow ''x.'') = Returns (0, Some (syntaxError ''x''))"
    by code_simp
  have t6: "InnerText (site []) (rankSpans (site []) (rankRow ''-.'') ! 0) = ''-'' @ [CHR ''.'']"
    by (simp add: rtext)
  have m6: "\<not> numeric ''-''" by code_simp
  have "\<exists>v err. getRank (site []) (rankRow ''-.'') = Returns (v, Some err)"
    by (rule claim [where e = "site []" and node = "rankRow ''-.''" and body = "''-''"
          and c = "CHR ''.''", THEN conjunct2, THEN conjunct2, THEN conjunct2, THEN conjunct2,
          THEN conjunct2, THEN mp])
      (intro conjI len t6 m6)
  have r6: "getRank (site []) (rankRow ''-.'') = Returns (0, Some (syntaxError ''-''))"
    by code_simp
  have t7: "InnerText (site []) (rankSpans (site []) (rankRow ''.'') ! 0) = [] @ [CHR ''.'']"
    by (simp add: rtext)
  have m7: "\<not> numeric []" by code_simp
  have "\<exists>v err. getRank (site []) (rankRow ''.'') = Returns (v, Some err)"
    by (rule claim [where e = "site []" and node = "rankRow ''.''" and body = "[]"
          and c = "CHR ''.''", THEN conjunct2, THEN conjunct2, THEN conjunct2, THEN conjunct2,
          THEN conjunct2, THEN mp])
      (intro conjI len t7 m7)
  have r7: "getRank (site []) (rankRow ''.'') = Returns (0, Some (syntaxError []))"
    by code_simp
  show ?thesis
    by (intro conjI; rule n1 r1 len t2 m2 s2 v2 r2 t3 m3 s3 v3 r3 t4 m4 v4 r4 t5 m5 r5
          t6 m6 r6 t7 m7 r7)
qed

text \<open>
  C4, as stated, fails: the rank text "42", which has no trailing period, is parsed as 4.
\<close>

theorem rank_without_period_counterexample:
  "InnerText (site []) (rankSpans (site []) (titleRow ''42'' ''A title'' ''https://example.com/'') ! 0)
     = ''42''
   \<and> getRank (site []) (titleRow ''42'' ''A title'' ''https://example.com/'') = Returns (4, None)"
proof -
  have a: "InnerText (site []) (rankSpans (site [])
      (titleRow ''42'' ''A title'' ''https://example.com/'') ! 0) = ''42''" by code_simp
  have b: "getRank (site []) (titleRow ''42'' ''A title'' ''https://example.com/'') =
      Returns (4, None)" by code_simp
  show ?thesis by (intro conjI; rule a b)
qed

section \<open>Scores\<close>

text \<open>
  The plural form is handled for every score: for the text made of the digits of a
  number below \<open>2^63\<close> followed by " points", \<open>getPoints\<close> returns that number.
\<close>

lemma digit_not_p: "is_digit c \<Longrightarrow> c \<noteq> CHR ''p''"
  by (auto simp: is_digit_def)

lemma replaceFrom_digits:
  assumes "list_all is_digit ds"
  shows "replaceFrom 0 (ds @ rest) ''points'' new = ds @ replaceFrom 0 rest ''points'' new"
  using assms by (induction ds) (auto dest: digit_not_p)

lemma spaceLen_no_head:
  assumes "\<forall>q\<in>set seqs. q \<noteq> [] \<and> hd q \<noteq> c"
  shows "spaceLen seqs (c # cs) = 0"
proof -
  have "\<not> prefix q (c # cs)" if "q \<in> set seqs" for q
    using assms that by (cases q) auto
  then have "filter (\<lambda>q. prefix q (c # cs)) seqs = []" by (simp add: filter_empty_conv)
  then show ?thesis by (simp add: spaceLen_def)
qed

lemma digit_no_space_start:
  assumes "is_digit c"
  shows "spaceLen spaceSeqs (c # cs) = 0" and "spaceLen (map rev spaceSeqs) (c # cs) = 0"
proof -
  have "\<forall>q\<in>set spaceSeqs. q \<noteq> [] \<and> hd q \<noteq> c"
    using assms by (auto simp: spaceSeqs_def is_digit_def)
  then show "spaceLen spaceSeqs (c # cs) = 0" by (rule spaceLen_no_head)
  have "\<forall>q\<in>set (map rev spaceSeqs). q \<noteq> [] \<and> hd q \<noteq> c"
    using assms by (auto simp: spaceSeqs_def is_digit_def)
  then show "spaceLen (map rev spaceSeqs) (c # cs) = 0" by (rule spaceLen_no_head)
qed

lemma space_at_end: "spaceLen (map rev spaceSeqs) (CHR '' '' # cs) = 1"
  by (simp add: spaceLen_def spaceSeqs_def)

lemma TrimSpace_digits_space:
  assumes "list_all is_digit ds" and "ds \<noteq> []"
  shows "TrimSpace (ds @ '' '') = ds"
proof -
  obtain c cs where ds: "ds = c # cs" using assms(2) by (cases ds) auto
  have c: "is_digit c" using assms(1) ds by simp
  have left: "trimLeftFrom 0 spaceSeqs (ds @ '' '') = ds @ '' ''"
    using digit_no_space_start(1) [OF c] by (simp add: ds)
  obtain l ls where rv: "rev ds = l # ls" using assms(2) by (cases "rev ds") auto
  have "l \<in> set ds" using rv by (metis list.set_intros(1) set_rev)
  then have l: "is_digit l" using assms(1) by (simp add: list_all_iff)
  have "trimLeftFrom 0 (map rev spaceSeqs) (rev (ds @ '' '')) = rev ds"
    using digit_no_space_start(2) [OF l] space_at_end by (simp add: rv)
  then show ?thesis by (simp add: TrimSpace_def left)
qed

lemma getPoints_plural:
  assumes "length (Find e node ''/span[contains(@class, 'score')]'') = 1"
    and "InnerText e (Find e node ''/span[contains(@class, 'score')]'' ! 0) = ds @ '' points''"
    and "list_all is_digit ds" and "ds \<noteq> []" and "digitsValue ds < 2 ^ 63"
  shows "getPoints e node = (of_int (digitsValue ds), None)"
proof -
  have "ReplaceAll (ds @ '' points'') ''points'' [] = ds @ '' ''"
    by (simp add: ReplaceAll_def replaceFrom_digits [OF assms(3)])
  then have "Atoi (TrimSpace (ReplaceAll (ds @ '' points'') ''points'' [])) =
      (of_int (digitsValue ds), None)"
    using Atoi_digits [OF assms(3) assms(4)] assms(5)
    by (simp add: TrimSpace_digits_space [OF assms(3) assms(4)])
  then show ?thesis using assms(1) assms(2) by (simp add: getPoints_def Let_def)
qed

text \<open>
  C2 fails on "1 point". \<open>getPoints\<close> removes the occurrences of "points" only: "1234
  points" gives 1234, but "1 point" is left as it is and \<open>Atoi\<close> rejects it, so the
  extractor returns a syntax error instead of 1.
\<close>

theorem singular_point_is_not_stripped:
  "getPoints (site []) (subtextCell ''1234 points'' [''discuss'']) = (1234, None)
   \<and> ReplaceAll ''1 point'' ''points'' [] = ''1 point''
   \<and> Atoi ''1 point'' = (0, Some (syntaxError ''1 point''))
   \<and> getPoints (site []) (subtextCell ''1 point'' [''discuss'']) =
        (0, Some (syntaxError ''1 point''))"
proof -
  have a: "getPoints (site []) (subtextCell ''1234 points'' [''discuss'']) = (1234, None)"
    by code_simp
  have b: "ReplaceAll ''1 point'' ''points'' [] = ''1 point''" by code_simp
  have c: "Atoi ''1 point'' = (0, Some (syntaxError ''1 point''))" by code_simp
  have d: "getPoints (site []) (subtextCell ''1 point'' [''discuss'']) =
      (0, Some (syntaxError ''1 point''))" by code_simp
  show ?thesis by (intro conjI; rule a b c d)
qed

section \<open>Panics\<close>

text \<open>
  C3 fails on a rank-marked span without text: \<open>rankStr[:len(rankStr)-1]\<close> has the upper
  bound \<open>-1\<close> there, and \<open>getRank\<close> panics. The panic goes through \<open>getPost\<close>,
  \<open>ScrapePage\<close> and \<open>ScrapeMultPages\<close>, none of which recovers from it.
\<close>

theorem empty_rank_text_panics:
  "InnerText (site []) (rankSpans (site []) (titleRow [] ''A title'' ''https://example.com/'') ! 0)
     = []
   \<and> getRank (site []) (titleRow [] ''A title'' ''https://example.com/'') =
        Panics ''slice bounds out of range [:-1]''
   \<and> getPost (site []) (titleRow [] ''A title'' ''https://example.com/'') (Some goodSubtext) =
        Panics ''slice bounds out of range [:-1]''
   \<and> fst (ScrapePage emptyRankSite 1 []) = Panics ''slice bounds out of range [:-1]''
   \<and> fst (ScrapeMultPages emptyRankSite 1 1 []) = Panics ''slice bounds out of range [:-1]''"
proof -
  have a: "InnerText (site []) (rankSpans (site [])
      (titleRow [] ''A title'' ''https://example.com/'') ! 0) = []" by code_simp
  have b: "getRank (site []) (titleRow [] ''A title'' ''https://example.com/'') =
      Panics ''slice bounds out of range [:-1]''" by code_simp
  have c: "getPost (site []) (titleRow [] ''A title'' ''https://example.com/'') (Some goodSubtext) =
      Panics ''slice bounds out of range [:-1]''" by code_simp
  have d: "fst (ScrapePage emptyRankSite 1 []) = Panics ''slice bounds out of range [:-1]''"
    by code_simp
  have e: "fst (ScrapeMultPages emptyRankSite 1 1 []) = Panics ''slice bounds out of range [:-1]''"
    by code_simp
  show ?thesis by (intro conjI; rule a b c d e)
qed

end
